theory Spec2Isabelle
  imports Complex_Main "HOL-Library.Sublist"
begin

section \<open>Upload and job-lifecycle client (app.js, config.js)\<close>

text \<open>
  The client is JavaScript that talks to the browser: the clock, \<open>FileReader\<close>,
  \<open>fetch\<close> and the console. The model threads a chronological log of these
  interactions through every function. What the browser answers is not decided by
  the program; it is a parameter, the \<open>world\<close>, which may answer differently at
  every moment (it is given the log so far). A rejected promise or a thrown error is
  the \<open>Inl\<close> branch of a sum, a normal return the \<open>Inr\<close> branch.
\<close>

subsection \<open>Data\<close>

datatype js_error = Error (message: string)

text \<open>The UTC fields of a \<open>Date\<close>, as \<open>toISOString\<close> prints them.\<close>

record utc =
  year :: int
  month :: nat
  day :: nat
  hour :: nat
  minute :: nat
  second :: nat
  millis :: nat

text \<open>
  A \<open>File\<close> has a name and a size; its bytes are identified with the file. A
  \<open>Blob\<close> is a byte range \<open>[lo, hi)\<close> of a file, the file itself being the
  range \<open>[0, size)\<close>.
\<close>

record js_file =
  name :: string
  fsize :: nat

record blob =
  origin :: js_file
  lo :: nat
  hi :: nat

text \<open>
  A value parsed from JSON. The list of an object gives its own fields, the first
  entry for a key being the value of that field.
\<close>

datatype json =
    JNull
  | JBool bool
  | JNum rat
  | JStr string
  | JArr "json list"
  | JObj "(string \<times> json) list"

record manifest =
  m_job_id :: string
  m_user_email :: string
  m_timestamp :: string
  m_files :: "string list"
  m_status :: string
  m_created_at :: string

text \<open>
  The request bodies are kept as the objects handed to \<open>JSON.stringify\<close>. The
  field \<open>file_data\<close> is optional: \<open>JSON.stringify\<close> leaves out a field whose
  value is \<open>undefined\<close>.
\<close>

datatype payload =
    Create_job manifest
  | Upload_file (u_job_id: string) (u_file_name: string) (u_file_data: "string option")
      (u_chunk_index: nat) (u_total_chunks: nat)
  | Mark_ready string

record request =
  url :: string
  http_method :: string
  mode :: "string option"
  headers :: "(string \<times> string) list"
  body :: "payload option"

text \<open>
  Of a \<open>Response\<close>, the flag \<open>ok\<close> and what \<open>response.json()\<close> settles to:
  \<open>Inl msg\<close> when it rejects with an error of that message, else the parsed
  value.
\<close>

record response =
  ok :: bool
  json_body :: "string + json"

text \<open>
  The log: a reading of the clock, a call of the progress callback with its
  arguments, a read of a blob and a fetch with what they answered, and a call of
  \<open>console.error\<close>.
\<close>

datatype event =
    Clock utc
  | Progress rat string "string option"
  | Read blob "string option"
  | Fetch request "string + response"
  | Console string js_error

text \<open>
  The browser. \<open>readAsDataURL\<close> answers \<open>None\<close> when the reader fires
  \<open>onerror\<close>, else the data URL. \<open>fetch\<close> answers \<open>Inl msg\<close> when the promise
  rejects with an error of that message. \<open>rnd\<close> is the rounding of the result of
  a floating-point operation to a double. \<open>toString\<close> is the conversion of a
  value to a string that \<open>new Error(v)\<close> applies, and \<open>nullAccess\<close> the message
  of the \<open>TypeError\<close> for reading a property of \<open>null\<close>.
\<close>

record world =
  clock :: "event list \<Rightarrow> utc"
  readAsDataURL :: "event list \<Rightarrow> blob \<Rightarrow> string option"
  fetch :: "event list \<Rightarrow> request \<Rightarrow> string + response"
  rnd :: "rat \<Rightarrow> rat"
  toString :: "json \<Rightarrow> string"
  nullAccess :: string

subsection \<open>config.js\<close>

definition APPS_SCRIPT_URL :: string where
  "APPS_SCRIPT_URL = ''https://script.google.com/macros/s/AKfycbxfSjbhX4dqAtptYecF-9zpAtKYSswn2cJQT0n28ndeZzwZRsBM0X_gaNH3f3AHmIbu4w/exec''"

subsection \<open>Strings, numbers and blobs of the platform\<close>

definition digit :: "nat \<Rightarrow> char" where
  "digit d = ''0123456789'' ! (d mod 10)"

text \<open>\<open>pad k n\<close>: the last \<open>k\<close> decimal digits of \<open>n\<close>, zero-padded.\<close>

fun pad :: "nat \<Rightarrow> nat \<Rightarrow> string" where
  "pad 0 n = []"
| "pad (Suc k) n = pad k (n div 10) @ [digit n]"

text \<open>The decimal form of a number in a template literal.\<close>

fun show_nat :: "nat \<Rightarrow> string" where
  "show_nat n = (if n < 10 then [digit n] else show_nat (n div 10) @ [digit n])"

declare show_nat.simps [simp del]

text \<open>
  \<open>Date.prototype.toISOString\<close>: \<open>YYYY-MM-DDTHH:mm:ss.sssZ\<close> for the years 0 to
  9999, and a sign with six digits for the year otherwise.
\<close>

definition iso_year :: "int \<Rightarrow> string" where
  "iso_year y =
     (if 0 \<le> y \<and> y \<le> 9999 then pad 4 (nat y)
      else if y < 0 then ''-'' @ pad 6 (nat (- y))
      else ''+'' @ pad 6 (nat y))"

definition toISOString :: "utc \<Rightarrow> string" where
  "toISOString t =
     iso_year (year t) @ ''-'' @ pad 2 (month t) @ ''-'' @ pad 2 (day t) @ ''T'' @
     pad 2 (hour t) @ '':'' @ pad 2 (minute t) @ '':'' @ pad 2 (second t) @ ''.'' @
     pad 3 (millis t) @ ''Z''"

text \<open>\<open>s.replace(c, d)\<close> with a string pattern replaces the first occurrence only.\<close>

fun replace_first :: "char \<Rightarrow> char \<Rightarrow> string \<Rightarrow> string" where
  "replace_first c d [] = []"
| "replace_first c d (x # xs) = (if x = c then d # xs else x # replace_first c d xs)"

text \<open>\<open>s.split(c)\<close>, and \<open>a[i]\<close> which is \<open>undefined\<close> out of range.\<close>

fun split :: "char \<Rightarrow> string \<Rightarrow> string list" where
  "split c [] = [[]]"
| "split c (x # xs) =
     (if x = c then [] # split c xs
      else (case split c xs of [] \<Rightarrow> [[x]] | p # ps \<Rightarrow> (x # p) # ps))"

definition index :: "'a list \<Rightarrow> nat \<Rightarrow> 'a option" where
  "index xs i = (if i < length xs then Some (xs ! i) else None)"

text \<open>
  \<open>Blob.slice(start, end)\<close> on a file: both ends are clamped to the size, and the
  span is empty when the end is before the start.
\<close>

definition whole :: "js_file \<Rightarrow> blob" where
  "whole f = \<lparr>origin = f, lo = 0, hi = fsize f\<rparr>"

definition slice :: "js_file \<Rightarrow> nat \<Rightarrow> nat \<Rightarrow> blob" where
  "slice f start end =
     (let s = min start (fsize f); e = min end (fsize f)
      in \<lparr>origin = f, lo = s, hi = max s e\<rparr>)"

subsection \<open>app.js: file upload functions\<close>

definition compact_stamp :: "string \<Rightarrow> string" where
  "compact_stamp s =
     take 15 (replace_first CHR ''T'' CHR ''_''
       (filter (\<lambda>c. c \<noteq> CHR ''-'' \<and> c \<noteq> CHR '':'') s))"

definition generateJobId :: "world \<Rightarrow> event list \<Rightarrow> event list \<times> string" where
  "generateJobId w tr =
     (let now = clock w tr;
          timestamp = compact_stamp (toISOString now)
      in (tr @ [Clock now], ''job_'' @ timestamp))"

definition post :: "payload \<Rightarrow> request" where
  "post p =
     \<lparr>url = APPS_SCRIPT_URL, http_method = ''POST'', mode = Some ''no-cors'',
      headers = [(''Content-Type'', ''application/json'')], body = Some p\<rparr>"

definition createJobManifest ::
  "world \<Rightarrow> string \<Rightarrow> string \<Rightarrow> string list \<Rightarrow> event list \<Rightarrow> event list \<times> (js_error + bool)" where
  "createJobManifest w jobId email fileNames tr =
     (let t1 = clock w tr; tr1 = tr @ [Clock t1];
          t2 = clock w tr1; tr2 = tr1 @ [Clock t2];
          man = \<lparr>m_job_id = jobId, m_user_email = email, m_timestamp = toISOString t1,
                 m_files = fileNames, m_status = ''pending'', m_created_at = toISOString t2\<rparr>;
          req = post (Create_job man);
          out = fetch w tr2 req;
          tr3 = tr2 @ [Fetch req out]
      in case out of
           Inl msg \<Rightarrow> (tr3, Inl (Error msg))
         | Inr resp \<Rightarrow> (tr3, Inr True))"

definition uploadFileChunk ::
  "world \<Rightarrow> string \<Rightarrow> blob \<Rightarrow> string \<Rightarrow> nat \<Rightarrow> nat \<Rightarrow> event list \<Rightarrow> event list \<times> (js_error + unit)" where
  "uploadFileChunk w jobId fileOrChunk fileName chunkIndex totalChunks tr =
     (let res = readAsDataURL w tr fileOrChunk;
          tr1 = tr @ [Read fileOrChunk res]
      in case res of
           None \<Rightarrow> (tr1, Inl (Error ''Failed to read file''))
         | Some result \<Rightarrow>
             (let base64Data = index (split CHR '','' result) 1;
                  req = post (Upload_file jobId fileName base64Data chunkIndex totalChunks);
                  out = fetch w tr1 req;
                  tr2 = tr1 @ [Fetch req out]
              in case out of
                   Inl msg \<Rightarrow> (tr2, Inl (Error msg))
                 | Inr resp \<Rightarrow> (tr2, Inr ())))"

definition chunkSize :: nat where
  "chunkSize = 10 * 1024 * 1024"

text \<open>The loop of \<open>uploadSingleFile\<close> over the chunks, from chunk \<open>i\<close> on.\<close>

function upload_chunks ::
  "world \<Rightarrow> string \<Rightarrow> js_file \<Rightarrow> nat \<Rightarrow> nat \<Rightarrow> event list \<Rightarrow> event list \<times> (js_error + unit)" where
  "upload_chunks w jobId f totalChunks i tr =
     (if i < totalChunks then
        (let start = i * chunkSize;
             end = min (start + chunkSize) (fsize f);
             chunk = slice f start end
         in case uploadFileChunk w jobId chunk (name f) i totalChunks tr of
              (tr', Inl e) \<Rightarrow> (tr', Inl e)
            | (tr', Inr u) \<Rightarrow> upload_chunks w jobId f totalChunks (Suc i) tr')
      else (tr, Inr ()))"
  by pat_completeness auto
termination
  by (relation "measure (\<lambda>(w, jobId, f, totalChunks, i, tr). totalChunks - i)") auto

declare upload_chunks.simps [simp del]

text \<open>
  \<open>Math.ceil(file.size / chunkSize)\<close>: sizes are integers below \<open>2^53\<close>, and the
  quotient of such a size by 10 MiB is never rounded across an integer, so the
  ceiling is that of the exact quotient.
\<close>

definition uploadSingleFile ::
  "world \<Rightarrow> string \<Rightarrow> js_file \<Rightarrow> event list \<Rightarrow> event list \<times> (js_error + unit)" where
  "uploadSingleFile w jobId f tr =
     (if fsize f \<le> chunkSize then uploadFileChunk w jobId (whole f) (name f) 0 1 tr
      else
        (let totalChunks = nat \<lceil>(of_nat (fsize f) :: rat) / of_nat chunkSize\<rceil>
         in upload_chunks w jobId f totalChunks 0 tr))"

definition markJobReady ::
  "world \<Rightarrow> string \<Rightarrow> event list \<Rightarrow> event list \<times> (js_error + unit)" where
  "markJobReady w jobId tr =
     (let req = post (Mark_ready jobId);
          out = fetch w tr req;
          tr1 = tr @ [Fetch req out]
      in case out of
           Inl msg \<Rightarrow> (tr1, Inl (Error msg))
         | Inr resp \<Rightarrow> (tr1, Inr ()))"

text \<open>
  Numbers are doubles: the file counter and the literals are integers, which are
  exact, and the result of every operation on them is rounded.
\<close>

definition percent :: "world \<Rightarrow> nat \<Rightarrow> nat \<Rightarrow> rat" where
  "percent w i totalFiles =
     (let fileProgress = rnd w (rnd w (of_nat (i + 1) / of_nat totalFiles) * 80)
      in rnd w (10 + fileProgress))"

definition uploading_message :: "nat \<Rightarrow> nat \<Rightarrow> string" where
  "uploading_message i totalFiles =
     ''Uploading file '' @ show_nat (i + 1) @ '' of '' @ show_nat totalFiles @ ''...''"

text \<open>The loop of \<open>uploadFiles\<close> over the files, from file \<open>i\<close> on.\<close>

function upload_each ::
  "world \<Rightarrow> string \<Rightarrow> js_file list \<Rightarrow> nat \<Rightarrow> nat \<Rightarrow> event list \<Rightarrow> event list \<times> (js_error + unit)" where
  "upload_each w jobId files totalFiles i tr =
     (if i < totalFiles then
        (let f = files ! i;
             tr1 = tr @ [Progress (percent w i totalFiles) (uploading_message i totalFiles)
                           (Some (name f))]
         in case uploadSingleFile w jobId f tr1 of
              (tr2, Inl e) \<Rightarrow> (tr2, Inl e)
            | (tr2, Inr u) \<Rightarrow> upload_each w jobId files totalFiles (Suc i) tr2)
      else (tr, Inr ()))"
  by pat_completeness auto
termination
  by (relation "measure (\<lambda>(w, jobId, files, totalFiles, i, tr). totalFiles - i)") auto

declare upload_each.simps [simp del]

text \<open>
  The \<open>try\<close> block of \<open>uploadFiles\<close>. The progress callback is the caller's
  observer: it is taken to return normally, and each call is an event of the log.
\<close>

definition upload_body ::
  "world \<Rightarrow> string \<Rightarrow> js_file list \<Rightarrow> string \<Rightarrow> event list \<Rightarrow> event list \<times> (js_error + string)" where
  "upload_body w jobId files email tr =
     (let fileNames = map name files
      in case createJobManifest w jobId email fileNames tr of
           (tr1, Inl e) \<Rightarrow> (tr1, Inl e)
         | (tr1, Inr b) \<Rightarrow>
             (let tr2 = tr1 @ [Progress 10 ''Uploading files...'' None];
                  totalFiles = length files
              in case upload_each w jobId files totalFiles 0 tr2 of
                   (tr3, Inl e) \<Rightarrow> (tr3, Inl e)
                 | (tr3, Inr u) \<Rightarrow>
                     (let tr4 = tr3 @ [Progress 95 ''Finalizing upload...'' None]
                      in case markJobReady w jobId tr4 of
                           (tr5, Inl e) \<Rightarrow> (tr5, Inl e)
                         | (tr5, Inr u) \<Rightarrow>
                             (tr5 @ [Progress 100 ''Upload complete!'' None], Inr jobId))))"

definition uploadFiles ::
  "world \<Rightarrow> js_file list \<Rightarrow> string \<Rightarrow> event list \<Rightarrow> event list \<times> (js_error + string)" where
  "uploadFiles w files email tr =
     (case generateJobId w tr of
        (tr0, jobId) \<Rightarrow>
          (let tr1 = tr0 @ [Progress 0 ''Creating job...'' None]
           in case upload_body w jobId files email tr1 of
                (tr2, Inl error) \<Rightarrow>
                  (tr2 @ [Console ''Upload error:'' error],
                   Inl (Error (''Upload failed: '' @ message error)))
              | (tr2, Inr r) \<Rightarrow> (tr2, Inr r)))"

subsection \<open>app.js: status and results functions\<close>

text \<open>
  \<open>data.error\<close> and \<open>data.url\<close>: reading a property of \<open>null\<close> throws, an
  object gives the value of the field or \<open>undefined\<close>, and the other parsed values
  have no such property.
\<close>

definition get_prop :: "world \<Rightarrow> json \<Rightarrow> string \<Rightarrow> js_error + json option" where
  "get_prop w data k =
     (case data of
        JNull \<Rightarrow> Inl (Error (nullAccess w))
      | JObj kvs \<Rightarrow> Inr (map_of kvs k)
      | _ \<Rightarrow> Inr None)"

text \<open>The condition of \<open>if (v)\<close>.\<close>

definition truthy :: "json option \<Rightarrow> bool" where
  "truthy v =
     (case v of
        None \<Rightarrow> False
      | Some JNull \<Rightarrow> False
      | Some (JBool b) \<Rightarrow> b
      | Some (JNum n) \<Rightarrow> n \<noteq> 0
      | Some (JStr s) \<Rightarrow> s \<noteq> []
      | Some (JArr xs) \<Rightarrow> True
      | Some (JObj kvs) \<Rightarrow> True)"

text \<open>The message of \<open>new Error(v)\<close>.\<close>

definition error_of :: "world \<Rightarrow> json option \<Rightarrow> js_error" where
  "error_of w v =
     Error (case v of
              Some (JStr s) \<Rightarrow> s
            | Some x \<Rightarrow> toString w x
            | None \<Rightarrow> [])"

definition get :: "string \<Rightarrow> (string \<times> string) list \<Rightarrow> request" where
  "get u hs = \<lparr>url = u, http_method = ''GET'', mode = None, headers = hs, body = None\<rparr>"

text \<open>
  The three queries have the same \<open>try\<close> block, apart from the request, the
  message for a response that is not OK, and what is returned from the parsed
  data.
\<close>

definition query_body ::
  "world \<Rightarrow> request \<Rightarrow> string \<Rightarrow> event list \<Rightarrow> event list \<times> (js_error + json)" where
  "query_body w req not_ok tr =
     (let out = fetch w tr req;
          tr1 = tr @ [Fetch req out]
      in case out of
           Inl msg \<Rightarrow> (tr1, Inl (Error msg))
         | Inr resp \<Rightarrow>
             if \<not> ok resp then (tr1, Inl (Error not_ok))
             else
               (case json_body resp of
                  Inl msg \<Rightarrow> (tr1, Inl (Error msg))
                | Inr data \<Rightarrow>
                    (case get_prop w data ''error'' of
                       Inl e \<Rightarrow> (tr1, Inl e)
                     | Inr v \<Rightarrow>
                         if truthy v then (tr1, Inl (error_of w v))
                         else (tr1, Inr data))))"

definition getJobStatus ::
  "world \<Rightarrow> string \<Rightarrow> event list \<Rightarrow> event list \<times> (js_error + json)" where
  "getJobStatus w jobId tr =
     (let u = APPS_SCRIPT_URL @ ''?action=get_status&job_id='' @ jobId
      in case query_body w (get u []) ''Failed to get status'' tr of
           (tr1, Inl error) \<Rightarrow>
             (tr1 @ [Console ''Status check error:'' error],
              Inl (Error (''Could not retrieve job status: '' @ message error)))
         | (tr1, Inr data) \<Rightarrow> (tr1, Inr data))"

definition getJobResults ::
  "world \<Rightarrow> string \<Rightarrow> event list \<Rightarrow> event list \<times> (js_error + json)" where
  "getJobResults w jobId tr =
     (let u = APPS_SCRIPT_URL @ ''?action=get_results&job_id='' @ jobId
      in case query_body w (get u []) ''Failed to get results'' tr of
           (tr1, Inl error) \<Rightarrow>
             (tr1 @ [Console ''Results retrieval error:'' error],
              Inl (Error (''Could not retrieve results: '' @ message error)))
         | (tr1, Inr data) \<Rightarrow> (tr1, Inr data))"

text \<open>
  \<open>getDownloadUrl\<close> returns \<open>data.url\<close>, which is \<open>undefined\<close> (\<open>None\<close>)
  when the parsed data has no such field.
\<close>

definition getDownloadUrl ::
  "world \<Rightarrow> string \<Rightarrow> string \<Rightarrow> event list \<Rightarrow> event list \<times> (js_error + json option)" where
  "getDownloadUrl w jobId fileId tr =
     (let u = APPS_SCRIPT_URL @ ''?action=get_download_url&job_id='' @ jobId @
                ''&file_id='' @ fileId
      in case query_body w (get u [(''Content-Type'', ''application/json'')])
                ''Failed to get download URL'' tr of
           (tr1, Inl error) \<Rightarrow>
             (tr1 @ [Console ''Download URL error:'' error],
              Inl (Error (''Could not get download URL: '' @ message error)))
         | (tr1, Inr data) \<Rightarrow>
             (case get_prop w data ''url'' of
                Inl e \<Rightarrow>
                  (tr1 @ [Console ''Download URL error:'' e],
                   Inl (Error (''Could not get download URL: '' @ message e)))
              | Inr v \<Rightarrow> (tr1, Inr v)))"

subsection \<open>Observations on the log\<close>

text \<open>
  What a run shows to the outside: the progress reports with their arguments, and the
  requests with a body, by action. A request counts as sent whether or not the
  transport then fails.
\<close>

datatype tag =
    Created string "string list"
  | Uploaded string string nat nat
  | Ready string

datatype step = Said rat string "string option" | Sent tag

fun tag_of :: "payload \<Rightarrow> tag" where
  "tag_of (Create_job m) = Created (m_job_id m) (m_files m)"
| "tag_of (Upload_file j n d i t) = Uploaded j n i t"
| "tag_of (Mark_ready j) = Ready j"

fun steps_of :: "event \<Rightarrow> step list" where
  "steps_of (Progress p m f) = [Said p m f]"
| "steps_of (Fetch r out) = (case body r of Some p \<Rightarrow> [Sent (tag_of p)] | None \<Rightarrow> [])"
| "steps_of e = []"

definition outline :: "event list \<Rightarrow> step list" where
  "outline evs = concat (map steps_of evs)"

fun percents :: "step list \<Rightarrow> rat list" where
  "percents [] = []"
| "percents (Said p m f # ss) = p # percents ss"
| "percents (Sent t # ss) = percents ss"

fun sent :: "step list \<Rightarrow> tag list" where
  "sent [] = []"
| "sent (Said p m f # ss) = sent ss"
| "sent (Sent t # ss) = t # sent ss"

text \<open>A call that failed: a read that fired \<open>onerror\<close>, a fetch that rejected.\<close>

fun failed :: "event \<Rightarrow> bool" where
  "failed (Read b None) = True"
| "failed (Fetch r (Inl msg)) = True"
| "failed e = False"

fun failure_message :: "event \<Rightarrow> string" where
  "failure_message (Fetch r (Inl msg)) = msg"
| "failure_message e = ''Failed to read file''"

fun is_call :: "event \<Rightarrow> bool" where
  "is_call (Read b d) = True"
| "is_call (Fetch r out) = True"
| "is_call e = False"

subsection \<open>The expected course of an upload\<close>

text \<open>
  The number of chunks of a file and the byte range of chunk \<open>i\<close>, as the
  specification gives them, and the number of upload calls the code makes.
\<close>

definition spec_chunk_count :: "nat \<Rightarrow> nat \<Rightarrow> nat" where
  "spec_chunk_count S C = nat \<lceil>(of_nat S :: rat) / of_nat C\<rceil>"

definition spec_chunk :: "js_file \<Rightarrow> nat \<Rightarrow> nat \<Rightarrow> blob" where
  "spec_chunk f C i = \<lparr>origin = f, lo = i * C, hi = min ((i + 1) * C) (fsize f)\<rparr>"

definition chunk_count :: "js_file \<Rightarrow> nat" where
  "chunk_count f = (if fsize f = 0 then 1 else spec_chunk_count (fsize f) chunkSize)"

text \<open>
  The events of a chunk that is read as the data URL \<open>d\<close> and sent with the
  response \<open>resp\<close>.
\<close>

definition chunk_events :: "string \<Rightarrow> js_file \<Rightarrow> nat \<Rightarrow> nat \<Rightarrow> string \<times> response \<Rightarrow> event list" where
  "chunk_events jobId f n i dr =
     [Read (spec_chunk f chunkSize i) (Some (fst dr)),
      Fetch (post (Upload_file jobId (name f) (index (split CHR '','' (fst dr)) 1) i n))
        (Inr (snd dr))]"

definition file_steps :: "string \<Rightarrow> js_file \<Rightarrow> step list" where
  "file_steps jobId f =
     map (\<lambda>i. Sent (Uploaded jobId (name f) i (chunk_count f))) [0..<chunk_count f]"

definition files_steps :: "world \<Rightarrow> string \<Rightarrow> js_file list \<Rightarrow> nat \<Rightarrow> step list" where
  "files_steps w jobId files i =
     concat (map (\<lambda>k. Said (percent w k (length files)) (uploading_message k (length files))
                          (Some (name (files ! k))) # file_steps jobId (files ! k))
               [i..<length files])"

definition body_steps :: "world \<Rightarrow> string \<Rightarrow> js_file list \<Rightarrow> step list" where
  "body_steps w jobId files =
     [Sent (Created jobId (map name files)), Said 10 ''Uploading files...'' None] @
     files_steps w jobId files 0 @
     [Said 95 ''Finalizing upload...'' None, Sent (Ready jobId),
      Said 100 ''Upload complete!'' None]"

definition upload_steps :: "world \<Rightarrow> string \<Rightarrow> js_file list \<Rightarrow> step list" where
  "upload_steps w jobId files = Said 0 ''Creating job...'' None # body_steps w jobId files"

text \<open>The requests of a whole upload, in order.\<close>

definition expected_requests :: "string \<Rightarrow> js_file list \<Rightarrow> tag list" where
  "expected_requests jobId files =
     Created jobId (map name files) #
     concat (map (\<lambda>f. map (\<lambda>i. Uploaded jobId (name f) i (chunk_count f)) [0..<chunk_count f])
               files) @
     [Ready jobId]"

text \<open>
  Reports on completion: every progress report that names a file comes after the
  last chunk of one more file has been sent. The argument counts the files sent
  in full and not yet reported.
\<close>

fun reports_follow_completion :: "nat \<Rightarrow> step list \<Rightarrow> bool" where
  "reports_follow_completion c [] = True"
| "reports_follow_completion c (Sent (Uploaded j n i t) # ss) =
     reports_follow_completion (if Suc i = t then Suc c else c) ss"
| "reports_follow_completion c (Sent t # ss) = reports_follow_completion c ss"
| "reports_follow_completion c (Said p m (Some f) # ss) =
     (0 < c \<and> reports_follow_completion (c - 1) ss)"
| "reports_follow_completion c (Said p m None # ss) = reports_follow_completion c ss"

text \<open>
  A run against an expected course: what was shown is a prefix of the course; a
  run that returned normally showed all of it and no call failed; a run that threw
  ended with the call that failed, and threw its message.
\<close>

definition run_ok :: "step list \<Rightarrow> event list \<Rightarrow> js_error + 'a \<Rightarrow> bool" where
  "run_ok course evs r =
     (prefix (outline evs) course \<and>
      (case r of
         Inr v \<Rightarrow> outline evs = course \<and> (\<forall>e \<in> set evs. \<not> failed e)
       | Inl e \<Rightarrow>
           evs \<noteq> [] \<and> failed (last evs) \<and> (\<forall>x \<in> set (butlast evs). \<not> failed x) \<and>
           e = Error (failure_message (last evs))))"

subsection \<open>The outcome of a query\<close>

text \<open>
  The message with which a query fails on the answer \<open>out\<close> of the transport,
  \<open>None\<close> when it does not fail: the transport rejected, the response is not OK
  (\<open>not_ok\<close> is the message for that), the body is not JSON, the parsed value is
  \<open>null\<close>, or it is an object whose field \<open>error\<close> is truthy.
\<close>

definition query_failure :: "world \<Rightarrow> string \<Rightarrow> string + response \<Rightarrow> string option" where
  "query_failure w not_ok out =
     (case out of
        Inl msg \<Rightarrow> Some msg
      | Inr resp \<Rightarrow>
          if \<not> ok resp then Some not_ok
          else
            (case json_body resp of
               Inl msg \<Rightarrow> Some msg
             | Inr JNull \<Rightarrow> Some (nullAccess w)
             | Inr (JObj kvs) \<Rightarrow>
                 (case map_of kvs ''error'' of
                    None \<Rightarrow> None
                  | Some v \<Rightarrow> if truthy (Some v) then Some (message (error_of w (Some v))) else None)
             | Inr other \<Rightarrow> None))"

text \<open>The parsed body of an answer, when there is one.\<close>

definition parsed :: "string + response \<Rightarrow> json option" where
  "parsed out =
     (case out of
        Inl msg \<Rightarrow> None
      | Inr resp \<Rightarrow> (case json_body resp of Inl msg \<Rightarrow> None | Inr data \<Rightarrow> Some data))"

text \<open>The field \<open>k\<close> of a parsed value that is not \<open>null\<close>.\<close>

definition field :: "json \<Rightarrow> string \<Rightarrow> json option" where
  "field data k = (case data of JObj kvs \<Rightarrow> map_of kvs k | _ \<Rightarrow> None)"

text \<open>The claim that a query rejects exactly on these three conditions.\<close>

definition spec_rejects :: "string + response \<Rightarrow> bool" where
  "spec_rejects out =
     (case out of
        Inl msg \<Rightarrow> True
      | Inr resp \<Rightarrow>
          \<not> ok resp \<or>
          (case json_body resp of
             Inr (JObj kvs) \<Rightarrow> ''error'' \<in> fst ` set kvs
           | _ \<Rightarrow> False))"

subsection \<open>Example inputs\<close>

definition t0 :: utc where
  "t0 = \<lparr>year = 2024, month = 3, day = 9, hour = 14, minute = 5, second = 7, millis = 42\<rparr>"

definition opaque :: response where
  "opaque = \<lparr>ok = False, json_body = Inl ''Unexpected end of JSON input''\<rparr>"

text \<open>A browser in which every call succeeds, the responses being opaque.\<close>

definition w_ok :: world where
  "w_ok =
     \<lparr>clock = (\<lambda>h. t0),
      readAsDataURL = (\<lambda>h b. Some ''data:application/gzip;base64,H4sIAAAA''),
      fetch = (\<lambda>h r. Inr opaque),
      rnd = (\<lambda>x. x),
      toString = (\<lambda>v. ''[object Object]''),
      nullAccess = ''Cannot read properties of null''\<rparr>"

text \<open>The same browser, one second later.\<close>

definition t1 :: utc where
  "t1 = t0\<lparr>second := 8, millis := 1\<rparr>"

definition w_later :: world where
  "w_later = w_ok\<lparr>clock := (\<lambda>h. t1)\<rparr>"

text \<open>A browser whose network fails from the third request of a run on.\<close>

definition w_drop :: world where
  "w_drop =
     w_ok\<lparr>fetch := (\<lambda>h r. if length (filter is_call h) < 4 then Inr opaque
                             else Inl ''Failed to fetch'')\<rparr>"

text \<open>A backend that answers a query with the given JSON value.\<close>

definition w_answer :: "json \<Rightarrow> world" where
  "w_answer v = w_ok\<lparr>fetch := (\<lambda>h r. Inr \<lparr>ok = True, json_body = Inr v\<rparr>)\<rparr>"

definition f_small :: js_file where
  "f_small = \<lparr>name = ''a_R1.fq.gz'', fsize = 1048576\<rparr>"

definition f_big :: js_file where
  "f_big = \<lparr>name = ''b_R1.fastq.gz'', fsize = 26214400\<rparr>"

definition f_empty :: js_file where
  "f_empty = \<lparr>name = ''empty.fq.gz'', fsize = 0\<rparr>"

section \<open>Properties\<close>

subsection \<open>Digits and timestamps\<close>

lemma length_pad [simp]: "length (pad k n) = k"
  by (induction k arbitrary: n) auto

lemma digit_in: "digit d \<in> set ''0123456789''"
  unfolding digit_def by (rule nth_mem) simp

lemma digit_inj: "digit a = digit b \<Longrightarrow> a mod 10 = b mod 10"
proof -
  assume h: "digit a = digit b"
  have d: "distinct ''0123456789''" by simp
  have "a mod 10 < length ''0123456789''" "b mod 10 < length ''0123456789''" by simp_all
  with d h show ?thesis unfolding digit_def by (simp only: nth_eq_iff_index_eq)
qed

lemma digit_plain: "digit d \<noteq> CHR ''-'' \<and> digit d \<noteq> CHR '':'' \<and> digit d \<noteq> CHR ''T''"
  using digit_in [of d] by auto

lemma filter_pad [simp]: "filter (\<lambda>c. c \<noteq> CHR ''-'' \<and> c \<noteq> CHR '':'') (pad k n) = pad k n"
  by (induction k arbitrary: n) (simp_all add: digit_plain)

lemma digit_not_T: "CHR ''T'' \<noteq> digit d"
  using digit_plain [of d] by (simp add: eq_commute)

lemma no_T_pad [simp]: "CHR ''T'' \<notin> set (pad k n)"
  by (induction k arbitrary: n) (simp_all add: digit_not_T)

lemma replace_first_skip:
  "c \<notin> set xs \<Longrightarrow> replace_first c d (xs @ ys) = xs @ replace_first c d ys"
  by (induction xs) auto

lemma pad2_inj:
  assumes "pad 2 a = pad 2 b" "a < 100" "b < 100"
  shows "a = b"
proof -
  have e: "pad 2 a = [digit (a div 10), digit a]" "pad 2 b = [digit (b div 10), digit b]"
    by (simp_all add: numeral_2_eq_2)
  with assms(1) have "digit (a div 10) = digit (b div 10)" "digit a = digit b" by simp_all
  then have "(a div 10) mod 10 = (b div 10) mod 10" "a mod 10 = b mod 10"
    by (auto dest: digit_inj)
  moreover from assms(2,3) have "(a div 10) mod 10 = a div 10" "(b div 10) mod 10 = b div 10"
    by simp_all
  ultimately have "a div 10 = b div 10" "a mod 10 = b mod 10" by simp_all
  then have "10 * (a div 10) + a mod 10 = 10 * (b div 10) + b mod 10" by simp
  then show ?thesis by (simp only: mult_div_mod_eq)
qed

lemma compact_stamp_iso:
  assumes "0 \<le> year t" "year t \<le> 9999"
  shows "compact_stamp (toISOString t) =
    pad 4 (nat (year t)) @ pad 2 (month t) @ pad 2 (day t) @ ''_'' @
    pad 2 (hour t) @ pad 2 (minute t) @ pad 2 (second t)"
proof -
  have f: "filter (\<lambda>c. c \<noteq> CHR ''-'' \<and> c \<noteq> CHR '':'') (toISOString t) =
    pad 4 (nat (year t)) @ pad 2 (month t) @ pad 2 (day t) @ ''T'' @
    pad 2 (hour t) @ pad 2 (minute t) @ pad 2 (second t) @ ''.'' @ pad 3 (millis t) @ ''Z''"
    using assms by (simp add: toISOString_def iso_year_def)
  have r: "replace_first CHR ''T'' CHR ''_'' (pad 4 (nat (year t)) @ pad 2 (month t) @ pad 2 (day t) @ ''T'' @
    pad 2 (hour t) @ pad 2 (minute t) @ pad 2 (second t) @ ''.'' @ pad 3 (millis t) @ ''Z'') =
    pad 4 (nat (year t)) @ pad 2 (month t) @ pad 2 (day t) @ ''_'' @
    pad 2 (hour t) @ pad 2 (minute t) @ pad 2 (second t) @ ''.'' @ pad 3 (millis t) @ ''Z''"
    by (simp add: replace_first_skip)
  show ?thesis unfolding compact_stamp_def f r by simp
qed

subsection \<open>Runs against their expected course\<close>

lemma outline_append [simp]: "outline (a @ b) = outline a @ outline b"
  by (simp add: outline_def)

lemma outline_Nil [simp]: "outline [] = []"
  by (simp add: outline_def)

lemma outline_Cons [simp]: "outline (e # es) = steps_of e @ outline es"
  by (simp add: outline_def)

lemma run_ok_seq:
  assumes "run_ok c1 evs1 (Inr x)" and "run_ok c2 evs2 r"
  shows "run_ok (c1 @ c2) (evs1 @ evs2) r"
proof (cases r)
  case (Inr v)
  with assms show ?thesis by (auto simp: run_ok_def)
next
  case (Inl e)
  with assms have ne: "evs2 \<noteq> []" by (simp add: run_ok_def)
  then have "butlast (evs1 @ evs2) = evs1 @ butlast evs2" by (simp add: butlast_append)
  with assms Inl ne show ?thesis by (auto simp: run_ok_def)
qed

lemma run_ok_stop:
  assumes "run_ok c1 evs (Inl e :: js_error + 'a)"
  shows "run_ok (c1 @ c2) evs (Inl e :: js_error + 'b)"
  using assms by (auto simp: run_ok_def prefix_def)

lemma run_ok_said: "run_ok [Said p m f] [Progress p m f] (Inr x)"
  by (simp add: run_ok_def)

lemma run_ok_silent: "\<not> failed e \<Longrightarrow> steps_of e = [] \<Longrightarrow> run_ok [] [e] (Inr x)"
  by (simp add: run_ok_def)

lemma run_ok_skip: "run_ok [] [] (Inr x)"
  by (simp add: run_ok_def)

lemma run_ok_fetch:
  assumes "body req = Some p"
  shows "run_ok [Sent (tag_of p)] [Fetch req out] (case out of Inl msg \<Rightarrow> Inl (Error msg) | Inr resp \<Rightarrow> Inr x)"
  using assms by (cases out) (simp_all add: run_ok_def)

lemma body_post [simp]: "body (post p) = Some p"
  by (simp add: post_def)

lemma createJobManifest_run:
  assumes "createJobManifest w jobId email names tr = (tr', r)"
  shows "\<exists>evs. tr' = tr @ evs \<and> run_ok [Sent (Created jobId names)] evs r"
proof -
  define t1 where "t1 = clock w tr"
  define t2 where "t2 = clock w (tr @ [Clock t1])"
  define req where "req = post (Create_job \<lparr>m_job_id = jobId, m_user_email = email, m_timestamp = toISOString t1,
                 m_files = names, m_status = ''pending'', m_created_at = toISOString t2\<rparr>)"
  define out where "out = fetch w (tr @ [Clock t1, Clock t2]) req"
  have tr': "tr' = tr @ [Clock t1, Clock t2, Fetch req out]"
    and r: "r = (case out of Inl msg \<Rightarrow> Inl (Error msg) | Inr resp \<Rightarrow> Inr True)"
    using assms unfolding createJobManifest_def t1_def t2_def req_def out_def
    by (auto simp: Let_def split: sum.splits)
  have "run_ok ([] @ [] @ [Sent (tag_of (Create_job \<lparr>m_job_id = jobId, m_user_email = email, m_timestamp = toISOString t1,
                 m_files = names, m_status = ''pending'', m_created_at = toISOString t2\<rparr>))]) ([Clock t1] @ [Clock t2] @ [Fetch req out]) r"
    unfolding r
    by (intro run_ok_seq [where x = "()"] run_ok_silent run_ok_fetch) (simp_all add: req_def)
  then show ?thesis using tr' by simp
qed

lemma markJobReady_run:
  assumes "markJobReady w jobId tr = (tr', r)"
  shows "\<exists>evs. tr' = tr @ evs \<and> run_ok [Sent (Ready jobId)] evs r"
proof -
  define req where "req = post (Mark_ready jobId)"
  define out where "out = fetch w tr req"
  have tr': "tr' = tr @ [Fetch req out]"
    and r: "r = (case out of Inl msg \<Rightarrow> Inl (Error msg) | Inr resp \<Rightarrow> Inr ())"
    using assms unfolding markJobReady_def req_def out_def
    by (auto simp: Let_def split: sum.splits)
  have "run_ok [Sent (tag_of (Mark_ready jobId))] [Fetch req out] r"
    unfolding r by (rule run_ok_fetch) (simp add: req_def)
  then show ?thesis using tr' by simp
qed

lemma uploadFileChunk_run:
  assumes "uploadFileChunk w jobId b n i t tr = (tr', r)"
  shows "\<exists>evs. tr' = tr @ evs \<and> run_ok [Sent (Uploaded jobId n i t)] evs r"
proof (cases "readAsDataURL w tr b")
  case None
  with assms have "tr' = tr @ [Read b None]" "r = Inl (Error ''Failed to read file'')"
    by (auto simp: uploadFileChunk_def)
  then show ?thesis by (simp add: run_ok_def)
next
  case (Some d)
  define req where "req = post (Upload_file jobId n (index (split CHR '','' d) 1) i t)"
  define out where "out = fetch w (tr @ [Read b (Some d)]) req"
  have tr': "tr' = tr @ [Read b (Some d), Fetch req out]"
    and r: "r = (case out of Inl msg \<Rightarrow> Inl (Error msg) | Inr resp \<Rightarrow> Inr ())"
    using assms Some unfolding uploadFileChunk_def req_def out_def
    by (auto simp: Let_def split: sum.splits)
  have "run_ok ([] @ [Sent (tag_of (Upload_file jobId n (index (split CHR '','' d) 1) i t))])
          ([Read b (Some d)] @ [Fetch req out]) r"
    unfolding r by (intro run_ok_seq [where x = "()"] run_ok_silent run_ok_fetch) (simp_all add: req_def)
  then show ?thesis using tr' by simp
qed


lemma upload_chunks_done: "\<not> i < n \<Longrightarrow> upload_chunks w jobId f n i tr = (tr, Inr ())"
  by (subst upload_chunks.simps) simp

lemma upload_chunks_step:
  "i < n \<Longrightarrow> upload_chunks w jobId f n i tr =
     (case uploadFileChunk w jobId
             (slice f (i * chunkSize) (min (i * chunkSize + chunkSize) (fsize f))) (name f) i n tr of
        (tr1, Inl e) \<Rightarrow> (tr1, Inl e)
      | (tr1, Inr u) \<Rightarrow> upload_chunks w jobId f n (Suc i) tr1)"
  by (subst upload_chunks.simps) (simp add: Let_def)

lemma upload_each_done: "\<not> i < N \<Longrightarrow> upload_each w jobId files N i tr = (tr, Inr ())"
  by (subst upload_each.simps) simp

lemma upload_each_step:
  "i < N \<Longrightarrow> upload_each w jobId files N i tr =
     (case uploadSingleFile w jobId (files ! i)
             (tr @ [Progress (percent w i N) (uploading_message i N) (Some (name (files ! i)))]) of
        (tr2, Inl e) \<Rightarrow> (tr2, Inl e)
      | (tr2, Inr u) \<Rightarrow> upload_each w jobId files N (Suc i) tr2)"
  by (subst upload_each.simps) (simp add: Let_def)

lemma upload_chunks_run:
  assumes "upload_chunks w jobId f n i tr = (tr', r)" and "i \<le> n"
  shows "\<exists>evs. tr' = tr @ evs \<and> run_ok (map (\<lambda>k. Sent (Uploaded jobId (name f) k n)) [i..<n]) evs r"
  using assms
proof (induction w jobId f n i tr rule: upload_chunks.induct)
  case (1 w jobId f n i tr)
  show ?case
  proof (cases "i < n")
    case False
    with "1.prems" have "tr' = tr" "r = Inr ()" "i = n"
      by (simp_all add: upload_chunks_done)
    then show ?thesis by (simp add: run_ok_skip)
  next
    case True
    define chunk where "chunk = slice f (i * chunkSize) (min (i * chunkSize + chunkSize) (fsize f))"
    obtain tr1 r1 where c: "uploadFileChunk w jobId chunk (name f) i n tr = (tr1, r1)"
      by (cases "uploadFileChunk w jobId chunk (name f) i n tr") auto
    from uploadFileChunk_run [OF c] obtain evs1 where
      e1: "tr1 = tr @ evs1" "run_ok [Sent (Uploaded jobId (name f) i n)] evs1 r1" by blast
    have upt: "[i..<n] = i # [Suc i..<n]" using True by (simp add: upt_conv_Cons)
    show ?thesis
    proof (cases r1)
      case (Inl e)
      with "1.prems" True c have "tr' = tr1" "r = Inl e"
        by (simp_all add: chunk_def upload_chunks_step)
      with e1 Inl run_ok_stop [of "[Sent (Uploaded jobId (name f) i n)]" evs1 e]
      show ?thesis by (auto simp: upt)
    next
      case (Inr u)
      with "1.prems" True c have rest: "upload_chunks w jobId f n (Suc i) tr1 = (tr', r)"
        by (simp add: chunk_def upload_chunks_step)
      have "\<exists>evs. tr' = tr1 @ evs \<and>
          run_ok (map (\<lambda>k. Sent (Uploaded jobId (name f) k n)) [Suc i..<n]) evs r"
        using "1.IH" [OF True refl refl refl _ _ rest] c Inr True
        by (simp add: chunk_def)
      then obtain evs2 where
        e2: "tr' = tr1 @ evs2" "run_ok (map (\<lambda>k. Sent (Uploaded jobId (name f) k n)) [Suc i..<n]) evs2 r"
        by blast
      from e1(2) Inr have "run_ok [Sent (Uploaded jobId (name f) i n)] evs1 (Inr u)" by simp
      from run_ok_seq [OF this e2(2)] e1(1) e2(1) show ?thesis by (auto simp: upt)
    qed
  qed
qed

lemma spec_chunk_count_small:
  assumes "0 < S" "S \<le> C"
  shows "spec_chunk_count S C = 1"
proof -
  have "0 < (of_nat S :: rat) / of_nat C" "(of_nat S :: rat) / of_nat C \<le> 1"
    using assms by simp_all
  then have "\<lceil>(of_nat S :: rat) / of_nat C\<rceil> = 1"
    by (intro ceiling_unique) simp_all
  then show ?thesis by (simp add: spec_chunk_count_def)
qed

lemma uploadSingleFile_run:
  assumes "uploadSingleFile w jobId f tr = (tr', r)"
  shows "\<exists>evs. tr' = tr @ evs \<and> run_ok (file_steps jobId f) evs r"
proof (cases "fsize f \<le> chunkSize")
  case True
  then have "chunk_count f = 1"
    by (cases "fsize f = 0") (simp_all add: chunk_count_def spec_chunk_count_small)
  then have "file_steps jobId f = [Sent (Uploaded jobId (name f) 0 1)]"
    by (simp add: file_steps_def)
  moreover from assms True have "uploadFileChunk w jobId (whole f) (name f) 0 1 tr = (tr', r)"
    by (simp add: uploadSingleFile_def)
  ultimately show ?thesis using uploadFileChunk_run by metis
next
  case False
  then have "fsize f \<noteq> 0" by (simp add: chunkSize_def)
  then have cc: "chunk_count f = spec_chunk_count (fsize f) chunkSize"
    by (simp add: chunk_count_def)
  from assms False have "upload_chunks w jobId f (chunk_count f) 0 tr = (tr', r)"
    by (simp add: uploadSingleFile_def cc spec_chunk_count_def)
  from upload_chunks_run [OF this] show ?thesis by (simp add: file_steps_def)
qed


lemma upload_each_run:
  assumes "upload_each w jobId files N i tr = (tr', r)" and "N = length files" and "i \<le> N"
  shows "\<exists>evs. tr' = tr @ evs \<and> run_ok (files_steps w jobId files i) evs r"
  using assms
proof (induction w jobId files N i tr rule: upload_each.induct)
  case (1 w jobId files N i tr)
  note N = \<open>N = length files\<close>
  show ?case
  proof (cases "i < N")
    case False
    with "1.prems" have "tr' = tr" "r = Inr ()" "i = length files"
      by (simp_all add: upload_each_done)
    then show ?thesis by (simp add: run_ok_skip files_steps_def)
  next
    case True
    define said where "said = Progress (percent w i N) (uploading_message i N) (Some (name (files ! i)))"
    obtain tr1 r1 where c: "uploadSingleFile w jobId (files ! i) (tr @ [said]) = (tr1, r1)"
      by (cases "uploadSingleFile w jobId (files ! i) (tr @ [said])") auto
    from uploadSingleFile_run [OF c] obtain evs1 where
      e1: "tr1 = tr @ [said] @ evs1" "run_ok (file_steps jobId (files ! i)) evs1 r1" by auto
    have upt: "[i..<length files] = i # [Suc i..<length files]"
      using True N by (simp add: upt_conv_Cons)
    have fs: "files_steps w jobId files i =
        ([Said (percent w i N) (uploading_message i N) (Some (name (files ! i)))] @
         file_steps jobId (files ! i)) @ files_steps w jobId files (Suc i)"
      by (simp add: files_steps_def upt N)
    have head: "\<And>x. run_ok [Said (percent w i N) (uploading_message i N) (Some (name (files ! i)))]
        [said] (Inr x)"
      unfolding said_def by (rule run_ok_said)
    show ?thesis
    proof (cases r1)
      case (Inl e)
      with "1.prems" True c have "tr' = tr1" "r = Inl e"
        by (simp_all add: said_def upload_each_step)
      moreover from run_ok_seq [OF head [of "()"] e1(2)] Inl
      have "run_ok ([Said (percent w i N) (uploading_message i N) (Some (name (files ! i)))] @
         file_steps jobId (files ! i)) ([said] @ evs1) (Inl e :: js_error + unit)" by simp
      ultimately show ?thesis using e1(1) run_ok_stop unfolding fs by blast
    next
      case (Inr u)
      with "1.prems" True c have rest: "upload_each w jobId files N (Suc i) tr1 = (tr', r)"
        by (simp add: said_def upload_each_step)
      have "\<exists>evs. tr' = tr1 @ evs \<and> run_ok (files_steps w jobId files (Suc i)) evs r"
        using "1.IH" [OF True refl refl _ _ rest N] c Inr True
        by (simp add: said_def)
      then obtain evs2 where
        e2: "tr' = tr1 @ evs2" "run_ok (files_steps w jobId files (Suc i)) evs2 r"
        by blast
      from run_ok_seq [OF head [of "()"] e1(2)] Inr
      have "run_ok ([Said (percent w i N) (uploading_message i N) (Some (name (files ! i)))] @
         file_steps jobId (files ! i)) ([said] @ evs1) (Inr u)" by simp
      from run_ok_seq [OF this e2(2)] e1(1) e2(1) show ?thesis unfolding fs by auto
    qed
  qed
qed

lemma upload_body_run:
  assumes "upload_body w jobId files email tr = (tr', r)"
  shows "\<exists>evs. tr' = tr @ evs \<and> run_ok (body_steps w jobId files) evs r \<and>
           (\<forall>v. r = Inr v \<longrightarrow> v = jobId)"
proof -
  let ?A = "[Sent (Created jobId (map name files))] @ [Said 10 ''Uploading files...'' None]"
  let ?F = "files_steps w jobId files 0"
  let ?B = "[Said 95 ''Finalizing upload...'' None] @ [Sent (Ready jobId)]"
  let ?C = "[Said 100 ''Upload complete!'' None]"
  let ?p10 = "Progress 10 ''Uploading files...'' None"
  let ?p95 = "Progress 95 ''Finalizing upload...'' None"
  let ?p100 = "Progress 100 ''Upload complete!'' None"
  have b1: "body_steps w jobId files = [Sent (Created jobId (map name files))] @
      ([Said 10 ''Uploading files...'' None] @ ?F @ ?B @ ?C)"
    and b2: "body_steps w jobId files = (?A @ ?F) @ (?B @ ?C)"
    and b3: "body_steps w jobId files = ((?A @ ?F) @ ?B) @ ?C"
    by (simp_all add: body_steps_def)
  obtain tr1 r1 where c1: "createJobManifest w jobId email (map name files) tr = (tr1, r1)"
    by (cases "createJobManifest w jobId email (map name files) tr") auto
  from createJobManifest_run [OF c1] obtain evs1 where
    e1: "tr1 = tr @ evs1" "run_ok [Sent (Created jobId (map name files))] evs1 r1" by blast
  show ?thesis
  proof (cases r1)
    case (Inl e)
    with assms c1 have "tr' = tr1" "r = Inl e" by (simp_all add: upload_body_def)
    moreover from e1(2) Inl
    have "run_ok [Sent (Created jobId (map name files))] evs1 (Inl e :: js_error + bool)" by simp
    from run_ok_stop [OF this]
    have "run_ok (body_steps w jobId files) evs1 (Inl e :: js_error + string)"
      unfolding b1 .
    ultimately show ?thesis using e1(1) by auto
  next
    case b: (Inr b)
    define tr2 where "tr2 = tr1 @ [?p10]"
    from e1(2) b have "run_ok [Sent (Created jobId (map name files))] evs1 (Inr b)" by simp
    from run_ok_seq [OF this run_ok_said]
    have s2: "run_ok ?A (evs1 @ [?p10]) (Inr ())" .
    obtain tr3 r3 where c3: "upload_each w jobId files (length files) 0 tr2 = (tr3, r3)"
      by (cases "upload_each w jobId files (length files) 0 tr2") auto
    from upload_each_run [OF c3] obtain evs3 where
      e3: "tr3 = tr2 @ evs3" "run_ok ?F evs3 r3" by auto
    note s3 = run_ok_seq [OF s2 e3(2)]
    have t3: "tr3 = tr @ ((evs1 @ [?p10]) @ evs3)"
      using e1(1) e3(1) by (simp add: tr2_def)
    show ?thesis
    proof (cases r3)
      case (Inl e)
      with assms c1 b c3 have "tr' = tr3" "r = Inl e"
        by (simp_all add: upload_body_def tr2_def Let_def)
      moreover from s3 Inl
      have "run_ok (?A @ ?F) ((evs1 @ [?p10]) @ evs3) (Inl e :: js_error + unit)" by simp
      from run_ok_stop [OF this]
      have "run_ok (body_steps w jobId files) ((evs1 @ [?p10]) @ evs3) (Inl e :: js_error + string)"
        unfolding b2 .
      ultimately show ?thesis using t3 by auto
    next
      case u: (Inr u)
      define tr4 where "tr4 = tr3 @ [?p95]"
      obtain tr5 r5 where c5: "markJobReady w jobId tr4 = (tr5, r5)"
        by (cases "markJobReady w jobId tr4") auto
      from markJobReady_run [OF c5] obtain evs5 where
        e5: "tr5 = tr4 @ evs5" "run_ok [Sent (Ready jobId)] evs5 r5" by blast
      note s5 = run_ok_seq [OF run_ok_said [of 95 "''Finalizing upload...''" None "()"] e5(2)]
      from s3 u have "run_ok (?A @ ?F) ((evs1 @ [?p10]) @ evs3) (Inr u)" by simp
      note s6 = run_ok_seq [OF this s5]
      have t5: "tr5 = tr @ (((evs1 @ [?p10]) @ evs3) @ ([?p95] @ evs5))"
        using t3 e5(1) by (simp add: tr4_def)
      show ?thesis
      proof (cases r5)
        case (Inl e)
        with assms c1 b c3 u c5 have "tr' = tr5" "r = Inl e"
          by (simp_all add: upload_body_def tr2_def tr4_def Let_def)
        moreover from s6 Inl have "run_ok ((?A @ ?F) @ ?B)
          (((evs1 @ [?p10]) @ evs3) @ ([?p95] @ evs5)) (Inl e :: js_error + unit)" by simp
        from run_ok_stop [OF this]
        have "run_ok (body_steps w jobId files)
          (((evs1 @ [?p10]) @ evs3) @ ([?p95] @ evs5)) (Inl e :: js_error + string)"
          unfolding b3 .
        ultimately show ?thesis using t5 by auto
      next
        case (Inr u')
        with assms c1 b c3 u c5 have "tr' = tr5 @ [?p100]" "r = Inr jobId"
          by (simp_all add: upload_body_def tr2_def tr4_def Let_def)
        moreover from s6 Inr have "run_ok ((?A @ ?F) @ ?B)
          (((evs1 @ [?p10]) @ evs3) @ ([?p95] @ evs5)) (Inr u')" by simp
        from run_ok_seq [OF this run_ok_said]
        have "run_ok (body_steps w jobId files)
          ((((evs1 @ [?p10]) @ evs3) @ ([?p95] @ evs5)) @ [?p100]) (Inr jobId)"
          unfolding b3 .
        ultimately show ?thesis using t5 by auto
      qed
    qed
  qed
qed

lemma uploadFiles_run:
  assumes "uploadFiles w files email tr = (tr', r)"
  defines "jobId \<equiv> snd (generateJobId w tr)"
  shows "\<exists>evs. hd evs = Progress 0 ''Creating job...'' None \<and> evs \<noteq> [] \<and>
           (r = Inr jobId \<and> tr' = tr @ Clock (clock w tr) # evs \<and>
            run_ok (upload_steps w jobId files) evs (Inr jobId) \<or>
            (\<exists>e. r = Inl (Error (''Upload failed: '' @ message e)) \<and>
                 tr' = tr @ Clock (clock w tr) # evs @ [Console ''Upload error:'' e] \<and>
                 run_ok (upload_steps w jobId files) evs (Inl e :: js_error + string)))"
proof -
  let ?p0 = "Progress 0 ''Creating job...'' None"
  define tr1 where "tr1 = (tr @ [Clock (clock w tr)]) @ [?p0]"
  have g: "generateJobId w tr = (tr @ [Clock (clock w tr)], jobId)"
    by (simp add: generateJobId_def jobId_def Let_def)
  obtain tr2 r2 where c: "upload_body w jobId files email tr1 = (tr2, r2)"
    by (cases "upload_body w jobId files email tr1") auto
  from upload_body_run [OF c] obtain evs where
    e: "tr2 = tr1 @ evs" "run_ok (body_steps w jobId files) evs r2" "\<And>v. r2 = Inr v \<Longrightarrow> v = jobId"
    by blast
  have s: "run_ok (upload_steps w jobId files) ([?p0] @ evs) r2"
    using run_ok_seq [OF run_ok_said [of 0 "''Creating job...''" None "()"] e(2)]
    by (simp add: upload_steps_def)
  show ?thesis
  proof (cases r2)
    case (Inr v)
    with assms(1) g c e(3) have "tr' = tr2" "r = Inr jobId"
      by (simp_all add: uploadFiles_def tr1_def)
    with s e(1) e(3) Inr show ?thesis
      by (intro exI [of _ "[?p0] @ evs"]) (simp add: tr1_def)
  next
    case (Inl e0)
    with assms(1) g c have "tr' = tr2 @ [Console ''Upload error:'' e0]"
      "r = Inl (Error (''Upload failed: '' @ message e0))"
      by (simp_all add: uploadFiles_def tr1_def)
    with s e(1) Inl show ?thesis
      by (intro exI [of _ "[?p0] @ evs"]) (simp add: tr1_def)
  qed
qed

subsection \<open>The queries\<close>

lemma query_body_trace: "fst (query_body w req not_ok tr) = tr @ [Fetch req (fetch w tr req)]"
  by (simp add: query_body_def Let_def split: sum.splits)

lemma query_body_fails:
  assumes "query_failure w not_ok (fetch w tr req) = Some m"
  shows "snd (query_body w req not_ok tr) = Inl (Error m)"
  using assms
  by (auto simp: query_body_def query_failure_def get_prop_def Let_def
      split: sum.splits if_splits json.splits option.splits)

lemma query_body_succeeds:
  assumes "query_failure w not_ok (fetch w tr req) = None"
  shows "\<exists>data. parsed (fetch w tr req) = Some data \<and> data \<noteq> JNull \<and>
           snd (query_body w req not_ok tr) = Inr data"
  using assms
  by (auto simp: query_body_def query_failure_def parsed_def get_prop_def truthy_def Let_def
      split: sum.splits if_splits json.splits option.splits)

lemma getJobStatus_result:
  "snd (getJobStatus w jobId tr) =
     (case snd (query_body w (get (APPS_SCRIPT_URL @ ''?action=get_status&job_id='' @ jobId) [])
                  ''Failed to get status'' tr) of
        Inl e \<Rightarrow> Inl (Error (''Could not retrieve job status: '' @ message e))
      | Inr data \<Rightarrow> Inr data)"
  by (simp add: getJobStatus_def Let_def split: prod.splits sum.splits)

lemma getJobResults_result:
  "snd (getJobResults w jobId tr) =
     (case snd (query_body w (get (APPS_SCRIPT_URL @ ''?action=get_results&job_id='' @ jobId) [])
                  ''Failed to get results'' tr) of
        Inl e \<Rightarrow> Inl (Error (''Could not retrieve results: '' @ message e))
      | Inr data \<Rightarrow> Inr data)"
  by (simp add: getJobResults_def Let_def split: prod.splits sum.splits)

lemma getDownloadUrl_result:
  "snd (getDownloadUrl w jobId fileId tr) =
     (case snd (query_body w
                  (get (APPS_SCRIPT_URL @ ''?action=get_download_url&job_id='' @ jobId @
                          ''&file_id='' @ fileId) [(''Content-Type'', ''application/json'')])
                  ''Failed to get download URL'' tr) of
        Inl e \<Rightarrow> Inl (Error (''Could not get download URL: '' @ message e))
      | Inr data \<Rightarrow>
          (case get_prop w data ''url'' of
             Inl e \<Rightarrow> Inl (Error (''Could not get download URL: '' @ message e))
           | Inr v \<Rightarrow> Inr v))"
  by (simp add: getDownloadUrl_def Let_def split: prod.splits sum.splits)

lemma get_prop_field: "data \<noteq> JNull \<Longrightarrow> get_prop w data k = Inr (field data k)"
  by (cases data) (simp_all add: get_prop_def field_def)

lemma wrap_fails:
  assumes "query_failure w not_ok (fetch w tr req) = Some m"
    and "r = (case snd (query_body w req not_ok tr) of
                Inl e \<Rightarrow> Inl (Error (p @ message e)) | Inr data \<Rightarrow> g data)"
  shows "r = Inl (Error (p @ m))"
  using assms(2) by (simp add: query_body_fails [OF assms(1)])

lemma wrap_succeeds:
  assumes "query_failure w not_ok (fetch w tr req) = None"
    and "r = (case snd (query_body w req not_ok tr) of Inl e \<Rightarrow> h e | Inr data \<Rightarrow> g data)"
  shows "\<exists>data. parsed (fetch w tr req) = Some data \<and> data \<noteq> JNull \<and> r = g data"
proof -
  from query_body_succeeds [OF assms(1)] obtain data where
    d: "parsed (fetch w tr req) = Some data" "data \<noteq> JNull"
      "snd (query_body w req not_ok tr) = Inr data" by blast
  from assms(2) d(3) have "r = g data" by simp
  with d show ?thesis by blast
qed

subsection \<open>Successful uploads of a file\<close>

lemma uploadFileChunk_success:
  assumes "uploadFileChunk w jobId b n i t tr = (tr', Inr u)"
  shows "\<exists>d resp. tr' = tr @ [Read b (Some d),
           Fetch (post (Upload_file jobId n (index (split CHR '','' d) 1) i t)) (Inr resp)]"
  using assms
  by (auto simp: uploadFileChunk_def Let_def split: option.splits sum.splits)

lemma spec_chunk_count_bound:
  assumes "0 < C" and "i < spec_chunk_count S C"
  shows "i * C < S"
proof -
  from assms(2) have "int i < \<lceil>(of_nat S :: rat) / of_nat C\<rceil>"
    by (simp add: spec_chunk_count_def)
  then have "(of_nat i :: rat) < of_nat S / of_nat C"
    by (simp add: less_ceiling_iff)
  with assms(1) have "(of_nat i :: rat) * of_nat C < of_nat S"
    by (simp add: pos_less_divide_eq)
  then have "(of_nat (i * C) :: rat) < of_nat S" by simp
  then show ?thesis by (simp only: of_nat_less_iff)
qed

lemma spec_chunk_count_covers:
  assumes "0 < C"
  shows "S \<le> spec_chunk_count S C * C"
proof -
  have "(of_nat S :: rat) / of_nat C \<le> of_int \<lceil>(of_nat S :: rat) / of_nat C\<rceil>"
    by (rule le_of_int_ceiling)
  moreover have "(0::rat) \<le> of_nat S / of_nat C" by simp
  then have "0 \<le> \<lceil>(of_nat S :: rat) / of_nat C\<rceil>"
    by (simp only: zero_le_ceiling)
  ultimately have "(of_nat S :: rat) / of_nat C \<le> of_nat (spec_chunk_count S C)"
    by (simp add: spec_chunk_count_def)
  with assms have "(of_nat S :: rat) \<le> of_nat (spec_chunk_count S C) * of_nat C"
    by (simp add: pos_divide_le_eq)
  then have "(of_nat S :: rat) \<le> of_nat (spec_chunk_count S C * C)" by simp
  then show ?thesis by (simp only: of_nat_le_iff)
qed

lemma slice_chunk:
  assumes "i * C \<le> fsize f"
  shows "slice f (i * C) (min (i * C + C) (fsize f)) = spec_chunk f C i"
  using assms by (auto simp: slice_def spec_chunk_def Let_def min_def max_def)

lemma whole_chunk:
  assumes "fsize f \<le> C"
  shows "whole f = spec_chunk f C 0"
  using assms by (simp add: whole_def spec_chunk_def min_def)

lemma upload_chunks_success:
  assumes "upload_chunks w jobId f n i tr = (tr', Inr u)" and "i \<le> n"
    and "n = spec_chunk_count (fsize f) chunkSize"
  shows "\<exists>outs. length outs = n - i \<and>
           tr' = tr @ concat (map (\<lambda>(k, dr). chunk_events jobId f n k dr) (zip [i..<n] outs))"
  using assms
proof (induction w jobId f n i tr rule: upload_chunks.induct)
  case (1 w jobId f n i tr)
  show ?case
  proof (cases "i < n")
    case False
    with "1.prems" have "tr' = tr" "i = n" by (simp_all add: upload_chunks_done)
    then show ?thesis by simp
  next
    case True
    have pos: "0 < chunkSize" by (simp add: chunkSize_def)
    from True "1.prems"(3) have "i * chunkSize < fsize f"
      using spec_chunk_count_bound [OF pos] by simp
    then have sl: "slice f (i * chunkSize) (min (i * chunkSize + chunkSize) (fsize f)) =
        spec_chunk f chunkSize i"
      by (intro slice_chunk) simp
    obtain tr1 r1 where c: "uploadFileChunk w jobId (spec_chunk f chunkSize i) (name f) i n tr = (tr1, r1)"
      by (cases "uploadFileChunk w jobId (spec_chunk f chunkSize i) (name f) i n tr") auto
    from "1.prems"(1) True c sl obtain u1 where r1: "r1 = Inr u1"
      and rest: "upload_chunks w jobId f n (Suc i) tr1 = (tr', Inr u)"
      by (cases r1) (simp_all add: upload_chunks_step)
    from uploadFileChunk_success [OF c [unfolded r1]] obtain d resp where
      t1: "tr1 = tr @ chunk_events jobId f n i (d, resp)"
      by (auto simp: chunk_events_def)
    have "\<exists>outs. length outs = n - Suc i \<and>
           tr' = tr1 @ concat (map (\<lambda>(k, dr). chunk_events jobId f n k dr) (zip [Suc i..<n] outs))"
      using "1.IH" [OF True refl refl refl _ _ rest _ "1.prems"(3)] c r1 sl True
      by simp
    then obtain outs where o: "length outs = n - Suc i"
      "tr' = tr1 @ concat (map (\<lambda>(k, dr). chunk_events jobId f n k dr) (zip [Suc i..<n] outs))"
      by blast
    have upt: "[i..<n] = i # [Suc i..<n]" using True by (simp add: upt_conv_Cons)
    show ?thesis
      using o t1 True by (intro exI [of _ "(d, resp) # outs"]) (simp add: upt)
  qed
qed

lemma uploadSingleFile_success:
  assumes "uploadSingleFile w jobId f tr = (tr', Inr u)"
  shows "\<exists>outs. length outs = chunk_count f \<and>
           tr' = tr @ concat (map (\<lambda>(i, dr). chunk_events jobId f (chunk_count f) i dr)
                               (zip [0..<chunk_count f] outs))"
proof (cases "fsize f \<le> chunkSize")
  case True
  then have cc: "chunk_count f = 1"
    by (cases "fsize f = 0") (simp_all add: chunk_count_def spec_chunk_count_small)
  from assms True have "uploadFileChunk w jobId (spec_chunk f chunkSize 0) (name f) 0 1 tr = (tr', Inr u)"
    by (simp add: uploadSingleFile_def whole_chunk)
  from uploadFileChunk_success [OF this] obtain d resp where
    "tr' = tr @ chunk_events jobId f 1 0 (d, resp)"
    by (auto simp: chunk_events_def)
  then show ?thesis unfolding cc by (intro exI [of _ "[(d, resp)]"]) simp
next
  case False
  then have "fsize f \<noteq> 0" by (simp add: chunkSize_def)
  then have cc: "chunk_count f = spec_chunk_count (fsize f) chunkSize"
    by (simp add: chunk_count_def)
  from assms False have "upload_chunks w jobId f (chunk_count f) 0 tr = (tr', Inr u)"
    by (simp add: uploadSingleFile_def cc spec_chunk_count_def)
  from upload_chunks_success [OF this _ cc] show ?thesis by simp
qed

lemma last_chunk_size:
  "hi (spec_chunk f chunkSize (chunk_count f - 1)) - lo (spec_chunk f chunkSize (chunk_count f - 1)) =
     fsize f - (chunk_count f - 1) * chunkSize"
proof (cases "fsize f = 0")
  case True
  then show ?thesis by (simp add: chunk_count_def spec_chunk_def)
next
  case False
  have pos: "0 < chunkSize" by (simp add: chunkSize_def)
  from False have cc: "chunk_count f = spec_chunk_count (fsize f) chunkSize"
    by (simp add: chunk_count_def)
  have "0 < chunk_count f"
  proof (rule ccontr)
    assume "\<not> 0 < chunk_count f"
    with spec_chunk_count_covers [OF pos, of "fsize f"] cc False show False by simp
  qed
  then have "chunk_count f - 1 + 1 = chunk_count f" by simp
  moreover have "fsize f \<le> chunk_count f * chunkSize"
    unfolding cc by (rule spec_chunk_count_covers [OF pos])
  ultimately show ?thesis by (simp add: spec_chunk_def)
qed

subsection \<open>A transport that never fails\<close>

lemma fetch_returns:
  assumes "\<forall>h r. \<not> isl (fetch w h r)"
  shows "\<exists>resp. fetch w h r = Inr resp"
proof (cases "fetch w h r")
  case (Inl msg)
  then have "isl (fetch w h r)" by simp
  with assms show ?thesis by blast
next
  case (Inr resp)
  then show ?thesis by blast
qed

lemma uploadFileChunk_no_fail:
  assumes "readAsDataURL w tr b \<noteq> None" and "\<forall>h r. \<not> isl (fetch w h r)"
  shows "snd (uploadFileChunk w jobId b n i t tr) = Inr ()"
proof -
  from assms(1) obtain d where d: "readAsDataURL w tr b = Some d" by auto
  let ?req = "post (Upload_file jobId n (index (split CHR '','' d) 1) i t)"
  from fetch_returns [OF assms(2)] obtain resp where
    "fetch w (tr @ [Read b (Some d)]) ?req = Inr resp" by blast
  with d show ?thesis by (simp add: uploadFileChunk_def Let_def)
qed

lemma upload_chunks_no_fail:
  assumes "\<forall>h b. readAsDataURL w h b \<noteq> None" and "\<forall>h r. \<not> isl (fetch w h r)"
  shows "snd (upload_chunks w jobId f n i tr) = Inr ()"
  using assms
proof (induction w jobId f n i tr rule: upload_chunks.induct)
  case (1 w jobId f n i tr)
  show ?case
  proof (cases "i < n")
    case False
    then show ?thesis by (simp add: upload_chunks_done)
  next
    case True
    let ?chunk = "slice f (i * chunkSize) (min (i * chunkSize + chunkSize) (fsize f))"
    obtain tr1 r1 where c: "uploadFileChunk w jobId ?chunk (name f) i n tr = (tr1, r1)"
      by (cases "uploadFileChunk w jobId ?chunk (name f) i n tr") auto
    from "1.prems"(1) have "readAsDataURL w tr ?chunk \<noteq> None" by blast
    from uploadFileChunk_no_fail [OF this "1.prems"(2), of jobId "name f" i n] c
    have r1: "r1 = Inr ()" by simp
    from "1.IH" [OF True refl refl refl _ _ "1.prems"] c r1
    have "snd (upload_chunks w jobId f n (Suc i) tr1) = Inr ()" by simp
    with True c r1 show ?thesis by (simp add: upload_chunks_step)
  qed
qed

lemma uploadSingleFile_no_fail:
  assumes "\<forall>h b. readAsDataURL w h b \<noteq> None" and "\<forall>h r. \<not> isl (fetch w h r)"
  shows "snd (uploadSingleFile w jobId f tr) = Inr ()"
proof (cases "fsize f \<le> chunkSize")
  case True
  from assms(1) have "readAsDataURL w tr (whole f) \<noteq> None" by blast
  from uploadFileChunk_no_fail [OF this assms(2)] True show ?thesis
    by (simp add: uploadSingleFile_def)
next
  case False
  with upload_chunks_no_fail [OF assms] show ?thesis
    by (simp add: uploadSingleFile_def Let_def)
qed

lemma upload_each_no_fail:
  assumes "\<forall>h b. readAsDataURL w h b \<noteq> None" and "\<forall>h r. \<not> isl (fetch w h r)"
  shows "snd (upload_each w jobId files N i tr) = Inr ()"
  using assms
proof (induction w jobId files N i tr rule: upload_each.induct)
  case (1 w jobId files N i tr)
  show ?case
  proof (cases "i < N")
    case False
    then show ?thesis by (simp add: upload_each_done)
  next
    case True
    let ?tr1 = "tr @ [Progress (percent w i N) (uploading_message i N) (Some (name (files ! i)))]"
    obtain tr2 r2 where c: "uploadSingleFile w jobId (files ! i) ?tr1 = (tr2, r2)"
      by (cases "uploadSingleFile w jobId (files ! i) ?tr1") auto
    from uploadSingleFile_no_fail [OF "1.prems", of jobId "files ! i" ?tr1] c
    have r2: "r2 = Inr ()" by simp
    from "1.IH" [OF True refl refl _ _ "1.prems"] c r2
    have "snd (upload_each w jobId files N (Suc i) tr2) = Inr ()" by simp
    with True c r2 show ?thesis by (simp add: upload_each_step)
  qed
qed

lemma createJobManifest_no_fail:
  assumes "\<forall>h r. \<not> isl (fetch w h r)"
  shows "snd (createJobManifest w jobId email names tr) = Inr True"
proof -
  let ?t1 = "clock w tr"
  let ?t2 = "clock w (tr @ [Clock ?t1])"
  let ?req = "post (Create_job \<lparr>m_job_id = jobId, m_user_email = email,
      m_timestamp = toISOString ?t1, m_files = names, m_status = ''pending'',
      m_created_at = toISOString ?t2\<rparr>)"
  from fetch_returns [OF assms] obtain resp where
    "fetch w ((tr @ [Clock ?t1]) @ [Clock ?t2]) ?req = Inr resp" by blast
  then show ?thesis by (simp add: createJobManifest_def Let_def)
qed

lemma markJobReady_no_fail:
  assumes "\<forall>h r. \<not> isl (fetch w h r)"
  shows "snd (markJobReady w jobId tr) = Inr ()"
proof -
  from fetch_returns [OF assms] obtain resp where
    "fetch w tr (post (Mark_ready jobId)) = Inr resp" by blast
  then show ?thesis by (simp add: markJobReady_def Let_def)
qed

lemma upload_body_no_fail:
  assumes "\<forall>h b. readAsDataURL w h b \<noteq> None" and "\<forall>h r. \<not> isl (fetch w h r)"
  shows "snd (upload_body w jobId files email tr) = Inr jobId"
proof -
  obtain tr1 r1 where c1: "createJobManifest w jobId email (map name files) tr = (tr1, r1)"
    by (cases "createJobManifest w jobId email (map name files) tr") auto
  with createJobManifest_no_fail [OF assms(2), of jobId email "map name files" tr]
  have r1: "r1 = Inr True" by simp
  let ?tr2 = "tr1 @ [Progress 10 ''Uploading files...'' None]"
  obtain tr3 r3 where c3: "upload_each w jobId files (length files) 0 ?tr2 = (tr3, r3)"
    by (cases "upload_each w jobId files (length files) 0 ?tr2") auto
  with upload_each_no_fail [OF assms, of jobId files "length files" 0 ?tr2]
  have r3: "r3 = Inr ()" by simp
  let ?tr4 = "tr3 @ [Progress 95 ''Finalizing upload...'' None]"
  obtain tr5 r5 where c5: "markJobReady w jobId ?tr4 = (tr5, r5)"
    by (cases "markJobReady w jobId ?tr4") auto
  with markJobReady_no_fail [OF assms(2), of jobId ?tr4]
  have r5: "r5 = Inr ()" by simp
  from c1 r1 c3 r3 c5 r5 show ?thesis by (simp add: upload_body_def Let_def)
qed

lemma uploadFiles_no_fail:
  assumes "\<forall>h b. readAsDataURL w h b \<noteq> None" and "\<forall>h r. \<not> isl (fetch w h r)"
  shows "snd (uploadFiles w files email tr) = Inr (snd (generateJobId w tr))"
proof -
  obtain tr0 jobId where g: "generateJobId w tr = (tr0, jobId)"
    by (cases "generateJobId w tr") auto
  let ?tr1 = "tr0 @ [Progress 0 ''Creating job...'' None]"
  obtain tr2 r2 where c: "upload_body w jobId files email ?tr1 = (tr2, r2)"
    by (cases "upload_body w jobId files email ?tr1") auto
  with upload_body_no_fail [OF assms, of jobId files email ?tr1]
  have "r2 = Inr jobId" by simp
  with g c show ?thesis by (simp add: uploadFiles_def Let_def)
qed

subsection \<open>The course of a whole run\<close>

lemma uploadFiles_course:
  assumes "uploadFiles w files email tr = (tr', r)"
  defines "jobId \<equiv> snd (generateJobId w tr)"
  shows "\<exists>evs. tr' = tr @ evs \<and> prefix (outline evs) (upload_steps w jobId files) \<and>
           outline evs \<noteq> [] \<and>
           ((\<forall>e \<in> set evs. \<not> failed e) \<and> r = Inr jobId \<and>
              outline evs = upload_steps w jobId files \<or>
            (\<exists>pre call. evs = pre @ [call, Console ''Upload error:'' (Error (failure_message call))] \<and>
               failed call \<and> (\<forall>e \<in> set pre. \<not> failed e) \<and>
               r = Inl (Error (''Upload failed: '' @ failure_message call))))"
proof -
  from uploadFiles_run [OF assms(1)] obtain evs where
    h: "hd evs = Progress 0 ''Creating job...'' None" "evs \<noteq> []"
    and c: "r = Inr jobId \<and> tr' = tr @ Clock (clock w tr) # evs \<and>
            run_ok (upload_steps w jobId files) evs (Inr jobId) \<or>
            (\<exists>e. r = Inl (Error (''Upload failed: '' @ message e)) \<and>
                 tr' = tr @ Clock (clock w tr) # evs @ [Console ''Upload error:'' e] \<and>
                 run_ok (upload_steps w jobId files) evs (Inl e :: js_error + string))"
    unfolding jobId_def by blast
  from h have ne: "outline evs \<noteq> []" by (cases evs) simp_all
  from c show ?thesis
  proof
    assume a: "r = Inr jobId \<and> tr' = tr @ Clock (clock w tr) # evs \<and>
            run_ok (upload_steps w jobId files) evs (Inr jobId)"
    then have "outline evs = upload_steps w jobId files" "\<forall>e \<in> set evs. \<not> failed e"
      by (simp_all add: run_ok_def)
    with a ne show ?thesis
      by (intro exI [of _ "Clock (clock w tr) # evs"]) simp
  next
    assume "\<exists>e. r = Inl (Error (''Upload failed: '' @ message e)) \<and>
                 tr' = tr @ Clock (clock w tr) # evs @ [Console ''Upload error:'' e] \<and>
                 run_ok (upload_steps w jobId files) evs (Inl e :: js_error + string)"
    then obtain e where e: "r = Inl (Error (''Upload failed: '' @ message e))"
      "tr' = tr @ Clock (clock w tr) # evs @ [Console ''Upload error:'' e]"
      "run_ok (upload_steps w jobId files) evs (Inl e :: js_error + string)" by blast
    from e(3) have p: "prefix (outline evs) (upload_steps w jobId files)"
      and f: "failed (last evs)" "\<forall>x \<in> set (butlast evs). \<not> failed x"
      and m: "e = Error (failure_message (last evs))"
      by (simp_all add: run_ok_def)
    from h(2) have s: "evs = butlast evs @ [last evs]" by simp
    have "Clock (clock w tr) # evs @ [Console ''Upload error:'' e] =
        (Clock (clock w tr) # butlast evs) @
        [last evs, Console ''Upload error:'' (Error (failure_message (last evs)))]"
      using s m by (metis append_Cons append_Nil append_assoc)
    moreover have "outline (Clock (clock w tr) # evs @ [Console ''Upload error:'' e]) = outline evs"
      by simp
    ultimately show ?thesis using e(1,2) p f m ne
      by (intro exI [of _ "Clock (clock w tr) # evs @ [Console ''Upload error:'' e]"])
        (auto intro!: exI [of _ "Clock (clock w tr) # butlast evs"] exI [of _ "last evs"])
  qed
qed

lemma run_ok_no_failure:
  assumes "run_ok c evs r" and "\<forall>e \<in> set evs. \<not> failed e"
  shows "\<exists>v. r = Inr v"
proof (cases r)
  case (Inl e)
  with assms(1) have "evs \<noteq> []" "failed (last evs)" by (simp_all add: run_ok_def)
  then have "\<exists>e \<in> set evs. failed e" using last_in_set by blast
  with assms(2) show ?thesis by blast
next
  case (Inr v)
  then show ?thesis by blast
qed

lemma createJobManifest_value:
  "createJobManifest w jobId email names tr = (tr', Inr v) \<Longrightarrow> v = True"
  by (auto simp: createJobManifest_def Let_def split: sum.splits)

subsection \<open>Requests and percentages of a course\<close>

lemma sent_append [simp]: "sent (a @ b) = sent a @ sent b"
  by (induction a rule: sent.induct) simp_all

lemma percents_append [simp]: "percents (a @ b) = percents a @ percents b"
  by (induction a rule: percents.induct) simp_all

lemma sent_map_Sent: "sent (map (\<lambda>i. Sent (g i)) xs) = map g xs"
  by (induction xs) simp_all

lemma percents_map_Sent: "percents (map (\<lambda>i. Sent (g i)) xs) = []"
  by (induction xs) simp_all

lemma concat_singletons: "concat (map (\<lambda>k. [g k]) xs) = map g xs"
  by (induction xs) simp_all

lemma sent_file_steps [simp]:
  "sent (file_steps jobId f) = map (\<lambda>i. Uploaded jobId (name f) i (chunk_count f)) [0..<chunk_count f]"
  by (simp add: file_steps_def sent_map_Sent)

lemma percents_file_steps [simp]: "percents (file_steps jobId f) = []"
  by (simp add: file_steps_def percents_map_Sent)

lemma sent_concat: "sent (concat xss) = concat (map sent xss)"
  by (induction xss) simp_all

lemma percents_concat: "percents (concat xss) = concat (map percents xss)"
  by (induction xss) simp_all

lemma map_nth_upt: "map (\<lambda>k. g (xs ! k)) [0..<length xs] = map g xs"
proof -
  have "map (\<lambda>k. g (xs ! k)) [0..<length xs] = map g (map (\<lambda>k. xs ! k) [0..<length xs])"
    by simp
  then show ?thesis by (simp only: map_nth)
qed

lemma sent_files_steps:
  "sent (files_steps w jobId files 0) =
     concat (map (\<lambda>f. map (\<lambda>i. Uploaded jobId (name f) i (chunk_count f)) [0..<chunk_count f]) files)"
proof -
  have "sent (files_steps w jobId files 0) =
      concat (map (\<lambda>k. (\<lambda>f. map (\<lambda>i. Uploaded jobId (name f) i (chunk_count f)) [0..<chunk_count f])
                          (files ! k)) [0..<length files])"
    by (simp add: files_steps_def sent_concat comp_def)
  then show ?thesis
    using map_nth_upt [of "\<lambda>f. map (\<lambda>i. Uploaded jobId (name f) i (chunk_count f)) [0..<chunk_count f]" files]
    by simp
qed

lemma percents_files_steps:
  "percents (files_steps w jobId files 0) =
     map (\<lambda>k. percent w k (length files)) [0..<length files]"
  by (simp add: files_steps_def percents_concat comp_def concat_singletons)

lemma sent_upload_steps: "sent (upload_steps w jobId files) = expected_requests jobId files"
  by (simp add: upload_steps_def body_steps_def expected_requests_def sent_files_steps)

lemma percents_upload_steps:
  "percents (upload_steps w jobId files) =
     [0, 10] @ map (\<lambda>k. percent w k (length files)) [0..<length files] @ [95, 100]"
  by (simp add: upload_steps_def body_steps_def percents_files_steps)

lemma prefix_sent: "prefix a b \<Longrightarrow> prefix (sent a) (sent b)"
  by (auto simp: prefix_def)

lemma prefix_percents: "prefix a b \<Longrightarrow> prefix (percents a) (percents b)"
  by (auto simp: prefix_def)

lemma prefix_with_last:
  assumes "prefix p (xs @ [a])" and "a \<in> set p" and "a \<notin> set xs"
  shows "p = xs @ [a]"
proof -
  from assms(1) have "prefix p xs \<or> p = xs @ [a]" by auto
  moreover have "\<not> prefix p xs"
  proof
    assume "prefix p xs"
    then have "set p \<subseteq> set xs" by (rule set_mono_prefix)
    with assms(2,3) show False by blast
  qed
  ultimately show ?thesis by blast
qed

lemma ready_not_before:
  "Ready j \<notin> set (Created j ns #
     concat (map (\<lambda>f. map (\<lambda>i. Uploaded j (name f) i (chunk_count f)) [0..<chunk_count f]) files))"
  by auto

subsection \<open>The percentages\<close>

lemma percent_bounds:
  assumes mono: "\<forall>x y. 0 \<le> x \<and> x \<le> y \<and> y \<le> 100 \<longrightarrow> rnd w x \<le> rnd w y"
    and exact: "\<forall>n::nat. n \<le> 100 \<longrightarrow> rnd w (of_nat n) = of_nat n"
    and "k \<le> k'" and "k' < N"
  shows "10 \<le> percent w k N" and "percent w k N \<le> percent w k' N" and "percent w k' N \<le> 90"
proof -
  have e: "rnd w 0 = 0" "rnd w 1 = 1" "rnd w 10 = 10" "rnd w 80 = 80" "rnd w 90 = 90"
    using exact [rule_format, of 0] exact [rule_format, of 1] exact [rule_format, of 10]
      exact [rule_format, of 80] exact [rule_format, of 90] by simp_all
  define x where "x = (of_nat (k + 1) :: rat) / of_nat N"
  define x' where "x' = (of_nat (k' + 1) :: rat) / of_nat N"
  from assms(3,4) have N: "(0::rat) < of_nat N" by simp
  have x: "0 \<le> x" "x \<le> x'" "x' \<le> 1"
    using assms(3,4) N by (simp_all add: x_def x'_def divide_right_mono)
  define a where "a = rnd w x"
  define a' where "a' = rnd w x'"
  have a: "0 \<le> a" "a \<le> a'" "a' \<le> 1"
    using mono [rule_format, of 0 x] mono [rule_format, of x x'] mono [rule_format, of x' 1] x e
    by (simp_all add: a_def a'_def)
  define b where "b = rnd w (a * 80)"
  define b' where "b' = rnd w (a' * 80)"
  have b: "0 \<le> b" "b \<le> b'" "b' \<le> 80"
    using mono [rule_format, of 0 "a * 80"] mono [rule_format, of "a * 80" "a' * 80"]
      mono [rule_format, of "a' * 80" 80] a e
    by (simp_all add: b_def b'_def)
  have c: "10 \<le> rnd w (10 + b)" "rnd w (10 + b) \<le> rnd w (10 + b')" "rnd w (10 + b') \<le> 90"
    using mono [rule_format, of 10 "10 + b"] mono [rule_format, of "10 + b" "10 + b'"]
      mono [rule_format, of "10 + b'" 90] b e
    by simp_all
  show "10 \<le> percent w k N" "percent w k N \<le> percent w k' N" "percent w k' N \<le> 90"
    using c by (simp_all add: percent_def Let_def a_def a'_def b_def b'_def x_def x'_def)
qed

lemma sorted_percents:
  assumes mono: "\<forall>x y. 0 \<le> x \<and> x \<le> y \<and> y \<le> 100 \<longrightarrow> rnd w x \<le> rnd w y"
    and exact: "\<forall>n::nat. n \<le> 100 \<longrightarrow> rnd w (of_nat n) = of_nat n"
  shows "sorted ([0, 10] @ map (\<lambda>k. percent w k N) [0..<N] @ [95, 100])"
proof -
  have "\<And>i j. i \<le> j \<Longrightarrow> j < N \<Longrightarrow> percent w i N \<le> percent w j N"
    by (rule percent_bounds(2) [OF assms])
  then have m: "sorted (map (\<lambda>k. percent w k N) [0..<N])"
    by (simp add: sorted_iff_nth_mono)
  have "\<And>k. k < N \<Longrightarrow> 10 \<le> percent w k N"
    by (rule percent_bounds(1) [OF assms le_refl])
  then have lo: "\<forall>p \<in> set (map (\<lambda>k. percent w k N) [0..<N]). 10 \<le> p" by auto
  have "\<And>k. k < N \<Longrightarrow> percent w k N \<le> 90"
    by (rule percent_bounds(3) [OF assms le_refl])
  then have hi: "\<forall>p \<in> set (map (\<lambda>k. percent w k N) [0..<N]). p \<le> 90" by auto
  from m lo hi show ?thesis by (fastforce simp: sorted_append)
qed

lemma upload_steps_unfold:
  "upload_steps w v files =
     [Said 0 ''Creating job...'' None, Sent (Created v (map name files)),
      Said 10 ''Uploading files...'' None] @
     concat (map (\<lambda>k. Said (rnd w (10 + rnd w (rnd w (of_nat (k + 1) / of_nat (length files)) * 80)))
                          (uploading_message k (length files)) (Some (name (files ! k))) #
                        file_steps v (files ! k))
               [0..<length files]) @
     [Said 95 ''Finalizing upload...'' None, Sent (Ready v),
      Said 100 ''Upload complete!'' None]"
  by (simp add: upload_steps_def body_steps_def files_steps_def percent_def Let_def)

subsection \<open>Evaluation at the example inputs\<close>

lemma pad_numeral: "pad (numeral k) n = pad (pred_numeral k) (n div 10) @ [digit n]"
  by (subst numeral_eq_Suc) (rule pad.simps)

lemma iso_t0: "toISOString t0 = ''2024-03-09T14:05:07.042Z''"
  by (simp add: t0_def toISOString_def iso_year_def pad_numeral digit_def)

lemma iso_t1: "toISOString t1 = ''2024-03-09T14:05:08.001Z''"
  by (simp add: t0_def t1_def toISOString_def iso_year_def pad_numeral digit_def)

lemma clock_ok [simp]: "clock w_ok tr = t0"
  by (simp add: w_ok_def)

lemma job_id_ok: "snd (generateJobId w_ok tr) = ''job_20240309_140507''"
  by (simp add: generateJobId_def Let_def iso_t0 compact_stamp_def)

lemma job_id_later: "snd (generateJobId w_later tr) = ''job_20240309_140508''"
  by (simp add: generateJobId_def Let_def w_later_def iso_t1 compact_stamp_def)

lemma fetch_answer [simp]: "fetch (w_answer v) h r = Inr \<lparr>ok = True, json_body = Inr v\<rparr>"
  by (simp add: w_answer_def w_ok_def)

lemma w_ok_reads: "\<forall>h b. readAsDataURL w_ok h b \<noteq> None"
  by (simp add: w_ok_def)

lemma w_ok_fetches: "\<forall>h r. \<not> isl (fetch w_ok h r)"
  by (simp add: w_ok_def)

lemma chunk_count_big: "chunk_count f_big = 3"
proof -
  have "\<lceil>(of_nat 26214400 :: rat) / of_nat 10485760\<rceil> = 3"
    by (rule ceiling_unique) simp_all
  then show ?thesis
    by (simp add: chunk_count_def spec_chunk_count_def f_big_def chunkSize_def)
qed

lemma chunk_count_small: "chunk_count f_small = 1"
  by (simp add: chunk_count_def spec_chunk_count_small f_small_def chunkSize_def)

lemma chunk_count_empty: "chunk_count f_empty = 1"
  by (simp add: chunk_count_def f_empty_def)

lemma clock_drop [simp]: "clock w_drop tr = t0"
  by (simp add: w_drop_def w_ok_def)

lemma read_drop [simp]: "readAsDataURL w_drop h b = Some ''data:application/gzip;base64,H4sIAAAA''"
  by (simp add: w_drop_def w_ok_def)

lemma fetch_drop [simp]:
  "fetch w_drop h r = (if length (filter is_call h) < 4 then Inr opaque else Inl ''Failed to fetch'')"
  by (simp add: w_drop_def w_ok_def)

lemma generateJobId_drop [simp]:
  "generateJobId w_drop tr = (tr @ [Clock t0], ''job_20240309_140507'')"
  by (simp add: generateJobId_def Let_def iso_t0 compact_stamp_def)

lemma drop_single_big:
  "snd (uploadFiles w_drop [f_big] ''user@example.org'' []) =
     Inl (Error ''Upload failed: Failed to fetch'')"
  by (simp add: uploadFiles_def upload_body_def createJobManifest_def upload_each_step
      upload_each_done uploadSingleFile_def upload_chunks_step upload_chunks_done
      uploadFileChunk_def chunk_count_big [unfolded chunk_count_def spec_chunk_count_def, simplified]
      Let_def f_big_def chunkSize_def)

lemma ok_run: "snd (uploadFiles w_ok files email tr) = Inr ''job_20240309_140507''"
  using uploadFiles_no_fail [OF w_ok_reads w_ok_fetches] by (simp add: job_id_ok)

lemma ok_run_pair:
  "uploadFiles w_ok files email tr =
     (fst (uploadFiles w_ok files email tr), Inr ''job_20240309_140507'')"
  using ok_run [of files email tr] by (simp add: prod_eq_iff)

lemma rnd_ok [simp]: "rnd w_ok x = x"
  by (simp add: w_ok_def)

lemma fetch_ok [simp]: "fetch w_ok h r = Inr opaque"
  by (simp add: w_ok_def)

lemma read_ok [simp]: "readAsDataURL w_ok h b = Some ''data:application/gzip;base64,H4sIAAAA''"
  by (simp add: w_ok_def)

lemma ok_run_clean:
  "\<forall>e \<in> set (drop (length tr) (fst (uploadFiles w_ok files email tr))). \<not> failed e"
  using uploadFiles_course [OF ok_run_pair [of files email tr]] by auto

lemma upt_3: "[0..<3] = [0, 1, 2]"
  by (simp add: upt_rec)

lemma message_1_of_1: "uploading_message 0 (Suc 0) = ''Uploading file 1 of 1...''"
  by (simp add: uploading_message_def show_nat.simps [of "Suc 0"] digit_def)

lemma percents_three:
  "percents (upload_steps w_ok j [f_small, f_big, f_small]) = [0, 10, 110 / 3, 190 / 3, 90, 95, 100]"
  by (simp add: percents_upload_steps upt_3 percent_def)

lemma steps_one:
  "upload_steps w_ok ''job_20240309_140507'' [f_small] =
     [Said 0 ''Creating job...'' None,
      Sent (Created ''job_20240309_140507'' [''a_R1.fq.gz'']),
      Said 10 ''Uploading files...'' None,
      Said 90 ''Uploading file 1 of 1...'' (Some ''a_R1.fq.gz''),
      Sent (Uploaded ''job_20240309_140507'' ''a_R1.fq.gz'' 0 1),
      Said 95 ''Finalizing upload...'' None,
      Sent (Ready ''job_20240309_140507''),
      Said 100 ''Upload complete!'' None]"
  by (simp add: upload_steps_def body_steps_def files_steps_def percent_def message_1_of_1
      file_steps_def chunk_count_small) (simp add: f_small_def)

lemma requests_two:
  "expected_requests ''job_20240309_140507'' [f_small, f_big] =
     [Created ''job_20240309_140507'' [''a_R1.fq.gz'', ''b_R1.fastq.gz''],
      Uploaded ''job_20240309_140507'' ''a_R1.fq.gz'' 0 1,
      Uploaded ''job_20240309_140507'' ''b_R1.fastq.gz'' 0 3,
      Uploaded ''job_20240309_140507'' ''b_R1.fastq.gz'' 1 3,
      Uploaded ''job_20240309_140507'' ''b_R1.fastq.gz'' 2 3,
      Ready ''job_20240309_140507'']"
  by (simp add: expected_requests_def chunk_count_small chunk_count_big upt_3)
    (simp add: f_small_def f_big_def)

section \<open>The claims\<close>

subsection \<open>C1: the chunks of a file\<close>

text \<open>
  C1, as the code has it. When a file of size \<open>S\<close> is uploaded, the number of
  \<open>upload_file\<close> calls is \<open>ceil(S / C)\<close> for \<open>S > 0\<close>, with \<open>C\<close> = 10 MiB,
  and one for an empty file; call \<open>i\<close> reads exactly the bytes
  \<open>[i * C, min((i + 1) * C, S))\<close> and sends what the reader gave for them, with
  the chunk index \<open>i\<close> and that number of calls as the total; and the size of the
  last chunk is \<open>S - (total - 1) * C\<close>.
\<close>

theorem chunks_of_a_file:
  assumes "uploadSingleFile w jobId f tr = (tr', Inr u)"
  shows "(fsize f = 0 \<longrightarrow> chunk_count f = 1) \<and>
         (0 < fsize f \<longrightarrow> chunk_count f = spec_chunk_count (fsize f) chunkSize) \<and>
         (\<exists>outs. length outs = chunk_count f \<and>
            tr' = tr @ concat (map (\<lambda>(i, dr). chunk_events jobId f (chunk_count f) i dr)
                                (zip [0..<chunk_count f] outs))) \<and>
         hi (spec_chunk f chunkSize (chunk_count f - 1)) -
           lo (spec_chunk f chunkSize (chunk_count f - 1)) =
           fsize f - (chunk_count f - 1) * chunkSize"
  using uploadSingleFile_success [OF assms] last_chunk_size [of f]
  by (simp add: chunk_count_def)

theorem chunks_of_a_file_witness:
  "chunk_count f_big = 3 \<and>
   (\<exists>outs. length outs = 3 \<and>
      fst (uploadSingleFile w_ok ''job_20240309_140507'' f_big []) =
        concat (map (\<lambda>(i, dr). chunk_events ''job_20240309_140507'' f_big 3 i dr)
                  (zip [0..<3] outs))) \<and>
   hi (spec_chunk f_big chunkSize 2) - lo (spec_chunk f_big chunkSize 2) = 5242880"
proof -
  have "snd (uploadSingleFile w_ok ''job_20240309_140507'' f_big []) = Inr ()"
    by (rule uploadSingleFile_no_fail [OF w_ok_reads w_ok_fetches])
  then have "uploadSingleFile w_ok ''job_20240309_140507'' f_big [] =
      (fst (uploadSingleFile w_ok ''job_20240309_140507'' f_big []), Inr ())"
    by (simp add: prod_eq_iff)
  from chunks_of_a_file [OF this] show ?thesis
    by (simp add: chunk_count_big) (simp add: f_big_def chunkSize_def)
qed

text \<open>
  C1 as stated fails for an empty file: it is uploaded with one call, as chunk 0
  of 1, while \<open>ceil(0 / C)\<close> is 0.
\<close>

theorem empty_file_is_one_call:
  "snd (uploadSingleFile w_ok ''job_20240309_140507'' f_empty []) = Inr () \<and>
   sent (outline (fst (uploadSingleFile w_ok ''job_20240309_140507'' f_empty []))) =
     [Uploaded ''job_20240309_140507'' ''empty.fq.gz'' 0 1] \<and>
   spec_chunk_count (fsize f_empty) chunkSize = 0"
  by (simp add: uploadSingleFile_def uploadFileChunk_def w_ok_def f_empty_def chunkSize_def
      spec_chunk_count_def Let_def)

subsection \<open>C2: the order of the requests\<close>

text \<open>
  C2. In every run of \<open>uploadFiles\<close>, the requests sent are, in order, an initial
  part of: the \<open>create_job\<close> request, then for each file in the order of the
  input its chunks with the indices 0, 1, ... up to the number of its chunks, each
  once and each with that number as \<open>total_chunks\<close>, and last the one
  \<open>mark_ready\<close> request. When \<open>mark_ready\<close> has been sent, all of them have
  been sent before it; a run that returns normally has sent all of them.
\<close>

theorem requests_in_order:
  assumes "uploadFiles w files email tr = (tr', r)"
  shows "prefix (sent (outline (drop (length tr) tr')))
           (expected_requests (snd (generateJobId w tr)) files) \<and>
         (Ready (snd (generateJobId w tr)) \<in> set (sent (outline (drop (length tr) tr'))) \<longrightarrow>
            sent (outline (drop (length tr) tr')) =
              expected_requests (snd (generateJobId w tr)) files) \<and>
         ((\<exists>v. r = Inr v) \<longrightarrow>
            sent (outline (drop (length tr) tr')) =
              expected_requests (snd (generateJobId w tr)) files)"
proof -
  let ?j = "snd (generateJobId w tr)"
  from uploadFiles_course [OF assms] obtain evs where
    t: "tr' = tr @ evs"
    and p: "prefix (outline evs) (upload_steps w ?j files)"
    and c: "(\<forall>e \<in> set evs. \<not> failed e) \<and> r = Inr ?j \<and>
              outline evs = upload_steps w ?j files \<or>
            (\<exists>pre call. evs = pre @ [call, Console ''Upload error:'' (Error (failure_message call))] \<and>
               failed call \<and> (\<forall>e \<in> set pre. \<not> failed e) \<and>
               r = Inl (Error (''Upload failed: '' @ failure_message call)))"
    by blast
  from t have d: "drop (length tr) tr' = evs" by simp
  from prefix_sent [OF p] have 1: "prefix (sent (outline evs)) (expected_requests ?j files)"
    by (simp add: sent_upload_steps)
  have 2: "sent (outline evs) = expected_requests ?j files"
    if "Ready ?j \<in> set (sent (outline evs))"
  proof -
    have e: "expected_requests ?j files =
        (Created ?j (map name files) #
         concat (map (\<lambda>f. map (\<lambda>i. Uploaded ?j (name f) i (chunk_count f)) [0..<chunk_count f])
                   files)) @ [Ready ?j]"
      by (simp add: expected_requests_def)
    from 1 that ready_not_before show ?thesis
      unfolding e by (rule prefix_with_last)
  qed
  have 3: "sent (outline evs) = expected_requests ?j files" if "\<exists>v. r = Inr v"
    using c that by (auto simp: sent_upload_steps)
  from 1 2 3 show ?thesis unfolding d by blast
qed


theorem requests_in_order_witness:
  "sent (outline (fst (uploadFiles w_ok [f_small, f_big] ''user@example.org'' []))) =
     [Created ''job_20240309_140507'' [''a_R1.fq.gz'', ''b_R1.fastq.gz''],
      Uploaded ''job_20240309_140507'' ''a_R1.fq.gz'' 0 1,
      Uploaded ''job_20240309_140507'' ''b_R1.fastq.gz'' 0 3,
      Uploaded ''job_20240309_140507'' ''b_R1.fastq.gz'' 1 3,
      Uploaded ''job_20240309_140507'' ''b_R1.fastq.gz'' 2 3,
      Ready ''job_20240309_140507'']"
proof -
  let ?run = "uploadFiles w_ok [f_small, f_big] ''user@example.org'' []"
  have "?run = (fst ?run, Inr ''job_20240309_140507'')" by (rule ok_run_pair)
  from requests_in_order [OF this]
  have "sent (outline (drop (length ([] :: event list)) (fst ?run))) =
      expected_requests (snd (generateJobId w_ok [])) [f_small, f_big]"
    by blast
  then have "sent (outline (fst ?run)) = expected_requests ''job_20240309_140507'' [f_small, f_big]"
    by (simp only: list.size drop_0 job_id_ok)
  then show ?thesis by (simp only: requests_two)
qed

subsection \<open>C3: the progress reports\<close>

text \<open>
  C3, as the code has it. A run of \<open>uploadFiles\<close> on \<open>N\<close> files that returns
  normally reports the progress 0 at the start and 10 after the manifest is
  created; then, for the \<open>k\<close>-th file (counted from 1) in turn, it reports
  \<open>10 + (k / N) * 80\<close>, computed in doubles, and after that report sends the
  chunks of that file; then it reports 95, sends \<open>mark_ready\<close>, and reports 100.
  It returns the generated job identifier.
\<close>

theorem progress_checkpoints:
  assumes "uploadFiles w files email tr = (tr', Inr v)"
  shows "v = snd (generateJobId w tr) \<and>
         outline (drop (length tr) tr') =
           [Said 0 ''Creating job...'' None, Sent (Created v (map name files)),
            Said 10 ''Uploading files...'' None] @
           concat (map (\<lambda>k. Said (rnd w (10 + rnd w (rnd w (of_nat (k + 1) / of_nat (length files)) * 80)))
                                (uploading_message k (length files)) (Some (name (files ! k))) #
                              file_steps v (files ! k))
                     [0..<length files]) @
           [Said 95 ''Finalizing upload...'' None, Sent (Ready v),
            Said 100 ''Upload complete!'' None]"
proof -
  from uploadFiles_course [OF assms] obtain evs where
    "tr' = tr @ evs" "v = snd (generateJobId w tr)"
    "outline evs = upload_steps w (snd (generateJobId w tr)) files"
    by auto
  then show ?thesis by (simp add: upload_steps_unfold)
qed

theorem progress_checkpoints_witness:
  "percents (outline (fst (uploadFiles w_ok [f_small, f_big, f_small] ''user@example.org'' []))) =
     [0, 10, 110 / 3, 190 / 3, 90, 95, 100] \<and>
   outline (fst (uploadFiles w_ok [f_small] ''user@example.org'' [])) =
     [Said 0 ''Creating job...'' None,
      Sent (Created ''job_20240309_140507'' [''a_R1.fq.gz'']),
      Said 10 ''Uploading files...'' None,
      Said 90 ''Uploading file 1 of 1...'' (Some ''a_R1.fq.gz''),
      Sent (Uploaded ''job_20240309_140507'' ''a_R1.fq.gz'' 0 1),
      Said 95 ''Finalizing upload...'' None,
      Sent (Ready ''job_20240309_140507''),
      Said 100 ''Upload complete!'' None]"
proof -
  let ?three = "uploadFiles w_ok [f_small, f_big, f_small] ''user@example.org'' []"
  let ?one = "uploadFiles w_ok [f_small] ''user@example.org'' []"
  have "?three = (fst ?three, Inr ''job_20240309_140507'')" by (rule ok_run_pair)
  from progress_checkpoints [OF this]
  have "outline (drop (length ([] :: event list)) (fst ?three)) =
      upload_steps w_ok ''job_20240309_140507'' [f_small, f_big, f_small]"
    by (simp only: upload_steps_unfold)
  then have "outline (fst ?three) =
      upload_steps w_ok ''job_20240309_140507'' [f_small, f_big, f_small]"
    by (simp only: list.size drop_0)
  then have a: "percents (outline (fst ?three)) = [0, 10, 110 / 3, 190 / 3, 90, 95, 100]"
    by (simp only: percents_three)
  have "?one = (fst ?one, Inr ''job_20240309_140507'')" by (rule ok_run_pair)
  from progress_checkpoints [OF this]
  have "outline (drop (length ([] :: event list)) (fst ?one)) =
      upload_steps w_ok ''job_20240309_140507'' [f_small]"
    by (simp only: upload_steps_unfold)
  then have b: "outline (fst ?one) = upload_steps w_ok ''job_20240309_140507'' [f_small]"
    by (simp only: list.size drop_0)
  from a b show ?thesis by (simp only: steps_one)
qed

text \<open>
  C3 as stated fails: the report for a file is made before its upload, not as it
  completes. With one file, the progress 90 is reported before the only chunk of
  the file is sent.
\<close>

theorem report_precedes_the_upload:
  "snd (uploadFiles w_ok [f_small] ''user@example.org'' []) = Inr ''job_20240309_140507'' \<and>
   outline (fst (uploadFiles w_ok [f_small] ''user@example.org'' [])) =
     [Said 0 ''Creating job...'' None,
      Sent (Created ''job_20240309_140507'' [''a_R1.fq.gz'']),
      Said 10 ''Uploading files...'' None,
      Said 90 ''Uploading file 1 of 1...'' (Some ''a_R1.fq.gz''),
      Sent (Uploaded ''job_20240309_140507'' ''a_R1.fq.gz'' 0 1),
      Said 95 ''Finalizing upload...'' None,
      Sent (Ready ''job_20240309_140507''),
      Said 100 ''Upload complete!'' None] \<and>
   \<not> reports_follow_completion 0
        (outline (fst (uploadFiles w_ok [f_small] ''user@example.org'' [])))"
proof -
  let ?one = "uploadFiles w_ok [f_small] ''user@example.org'' []"
  have "?one = (fst ?one, Inr ''job_20240309_140507'')" by (rule ok_run_pair)
  from uploadFiles_course [OF this] obtain evs where
    "fst ?one = [] @ evs" "outline evs = upload_steps w_ok (snd (generateJobId w_ok [])) [f_small]"
    by auto
  then have "outline (fst ?one) = upload_steps w_ok ''job_20240309_140507'' [f_small]"
    by (simp add: job_id_ok)
  then have b: "outline (fst ?one) =
     [Said 0 ''Creating job...'' None,
      Sent (Created ''job_20240309_140507'' [''a_R1.fq.gz'']),
      Said 10 ''Uploading files...'' None,
      Said 90 ''Uploading file 1 of 1...'' (Some ''a_R1.fq.gz''),
      Sent (Uploaded ''job_20240309_140507'' ''a_R1.fq.gz'' 0 1),
      Said 95 ''Finalizing upload...'' None,
      Sent (Ready ''job_20240309_140507''),
      Said 100 ''Upload complete!'' None]"
    by (simp only: steps_one)
  have "\<not> reports_follow_completion 0 (outline (fst ?one))"
    unfolding b by simp
  with b show ?thesis by (simp only: ok_run simp_thms)
qed

subsection \<open>C4: the progress never goes back\<close>

text \<open>
  C4. The percentages reported by a run of \<open>uploadFiles\<close> are in non-decreasing
  order and start with 0; those of a run that returns normally end with 100. The
  arithmetic is that of doubles: rounding is monotone, and the integers up to 100
  are exact.
\<close>

theorem progress_is_monotone:
  assumes "uploadFiles w files email tr = (tr', r)"
    and "\<forall>x y. 0 \<le> x \<and> x \<le> y \<and> y \<le> 100 \<longrightarrow> rnd w x \<le> rnd w y"
    and "\<forall>n::nat. n \<le> 100 \<longrightarrow> rnd w (of_nat n) = of_nat n"
  shows "sorted (percents (outline (drop (length tr) tr'))) \<and>
         percents (outline (drop (length tr) tr')) \<noteq> [] \<and>
         hd (percents (outline (drop (length tr) tr'))) = 0 \<and>
         ((\<exists>v. r = Inr v) \<longrightarrow> last (percents (outline (drop (length tr) tr'))) = 100)"
proof -
  let ?j = "snd (generateJobId w tr)"
  let ?all = "[0, 10] @ map (\<lambda>k. percent w k (length files)) [0..<length files] @ [95, 100]"
  from uploadFiles_course [OF assms(1)] obtain evs where
    t: "tr' = tr @ evs"
    and p: "prefix (outline evs) (upload_steps w ?j files)"
    and ne: "outline evs \<noteq> []"
    and c: "(\<forall>e \<in> set evs. \<not> failed e) \<and> r = Inr ?j \<and>
              outline evs = upload_steps w ?j files \<or>
            (\<exists>pre call. evs = pre @ [call, Console ''Upload error:'' (Error (failure_message call))] \<and>
               failed call \<and> (\<forall>e \<in> set pre. \<not> failed e) \<and>
               r = Inl (Error (''Upload failed: '' @ failure_message call)))"
    by blast
  from t have d: "drop (length tr) tr' = evs" by simp
  from prefix_percents [OF p] have pp: "prefix (percents (outline evs)) ?all"
    by (simp only: percents_upload_steps)
  then obtain rest where rest: "?all = percents (outline evs) @ rest"
    by (auto simp: prefix_def)
  have "sorted ?all" by (rule sorted_percents [OF assms(2,3)])
  then have 1: "sorted (percents (outline evs))"
    unfolding rest by (simp add: sorted_append)
  from p ne obtain ss where "outline evs = Said 0 ''Creating job...'' None # ss"
    by (cases "outline evs") (auto simp: upload_steps_def)
  then have 2: "percents (outline evs) \<noteq> []" "hd (percents (outline evs)) = 0"
    by simp_all
  have 3: "last (percents (outline evs)) = 100" if "\<exists>v. r = Inr v"
  proof -
    from c that have "outline evs = upload_steps w ?j files" by auto
    then have "percents (outline evs) =
        ([0, 10] @ map (\<lambda>k. percent w k (length files)) [0..<length files] @ [95]) @ [100]"
      by (simp add: percents_upload_steps)
    then show ?thesis by (simp only: last_snoc)
  qed
  from 1 2 3 show ?thesis unfolding d by blast
qed

theorem progress_is_monotone_witness:
  "percents (outline (fst (uploadFiles w_ok [f_small, f_big, f_small] ''user@example.org'' []))) =
     [0, 10, 110 / 3, 190 / 3, 90, 95, 100] \<and>
   sorted (percents (outline
     (fst (uploadFiles w_ok [f_small, f_big, f_small] ''user@example.org'' [])))) \<and>
   hd (percents (outline
     (fst (uploadFiles w_ok [f_small, f_big, f_small] ''user@example.org'' [])))) = 0 \<and>
   last (percents (outline
     (fst (uploadFiles w_ok [f_small, f_big, f_small] ''user@example.org'' [])))) = 100"
proof -
  let ?run = "uploadFiles w_ok [f_small, f_big, f_small] ''user@example.org'' []"
  have r: "?run = (fst ?run, Inr ''job_20240309_140507'')" by (rule ok_run_pair)
  have m: "\<forall>x y. 0 \<le> x \<and> x \<le> y \<and> y \<le> 100 \<longrightarrow> rnd w_ok x \<le> rnd w_ok y"
    by simp
  have e: "\<forall>n::nat. n \<le> 100 \<longrightarrow> rnd w_ok (of_nat n) = of_nat n"
    by simp
  from progress_is_monotone [OF r m e]
  have s: "sorted (percents (outline (drop (length ([] :: event list)) (fst ?run)))) \<and>
      hd (percents (outline (drop (length ([] :: event list)) (fst ?run)))) = 0 \<and>
      last (percents (outline (drop (length ([] :: event list)) (fst ?run)))) = 100"
    by blast
  from uploadFiles_course [OF r] obtain evs where
    "fst ?run = [] @ evs" "outline evs = upload_steps w_ok (snd (generateJobId w_ok [])) [f_small, f_big, f_small]"
    by auto
  then have "percents (outline (fst ?run)) = [0, 10, 110 / 3, 190 / 3, 90, 95, 100]"
    by (simp add: percents_three)
  with s show ?thesis by (simp only: list.size drop_0 simp_thms)
qed

subsection \<open>C5: headers of the GET requests\<close>

text \<open>
  C5. The GET requests of \<open>getJobStatus\<close> and \<open>getJobResults\<close> carry no
  header; the GET request of \<open>getDownloadUrl\<close> carries the header
  \<open>Content-Type: application/json\<close>.
\<close>

theorem download_url_request_has_header:
  "(\<exists>req out rest. fst (getJobStatus w jobId tr) = tr @ Fetch req out # rest \<and>
      http_method req = ''GET'' \<and> headers req = []) \<and>
   (\<exists>req out rest. fst (getJobResults w jobId tr) = tr @ Fetch req out # rest \<and>
      http_method req = ''GET'' \<and> headers req = []) \<and>
   (\<exists>req out rest. fst (getDownloadUrl w jobId fileId tr) = tr @ Fetch req out # rest \<and>
      http_method req = ''GET'' \<and> headers req = [(''Content-Type'', ''application/json'')])"
proof -
  have t: "\<And>req not_ok. \<exists>r. query_body w req not_ok tr = (tr @ [Fetch req (fetch w tr req)], r)"
    using query_body_trace by (metis prod.collapse)
  have g: "\<And>u hs. http_method (get u hs) = ''GET'' \<and> headers (get u hs) = hs"
    by (simp add: get_def)
  let ?s = "get (APPS_SCRIPT_URL @ ''?action=get_status&job_id='' @ jobId) []"
  let ?q = "get (APPS_SCRIPT_URL @ ''?action=get_results&job_id='' @ jobId) []"
  let ?d = "get (APPS_SCRIPT_URL @ ''?action=get_download_url&job_id='' @ jobId @
                  ''&file_id='' @ fileId) [(''Content-Type'', ''application/json'')]"
  obtain r1 where "query_body w ?s ''Failed to get status'' tr = (tr @ [Fetch ?s (fetch w tr ?s)], r1)"
    using t by blast
  then have a: "\<exists>rest. fst (getJobStatus w jobId tr) = tr @ Fetch ?s (fetch w tr ?s) # rest"
    by (auto simp: getJobStatus_def split: sum.splits)
  obtain r2 where "query_body w ?q ''Failed to get results'' tr = (tr @ [Fetch ?q (fetch w tr ?q)], r2)"
    using t by blast
  then have b: "\<exists>rest. fst (getJobResults w jobId tr) = tr @ Fetch ?q (fetch w tr ?q) # rest"
    by (auto simp: getJobResults_def split: sum.splits)
  obtain r3 where "query_body w ?d ''Failed to get download URL'' tr = (tr @ [Fetch ?d (fetch w tr ?d)], r3)"
    using t by blast
  then have c: "\<exists>rest. fst (getDownloadUrl w jobId fileId tr) = tr @ Fetch ?d (fetch w tr ?d) # rest"
    by (auto simp: getDownloadUrl_def split: sum.splits)
  from a b c g show ?thesis by metis
qed

subsection \<open>C6: when the queries reject\<close>

text \<open>
  C6, as the code has it. Each query rejects exactly when \<open>query_failure\<close> gives
  a message for the answer of the transport: the transport call failed, the
  response is not OK, the body could not be read as JSON, the parsed value is
  \<open>null\<close>, or it is an object with a truthy field \<open>error\<close>. The error thrown
  has the prefix of the query followed by that message. Otherwise the query
  returns the parsed value, \<open>getDownloadUrl\<close> its field \<open>url\<close>.
\<close>

theorem queries_reject_on_failure:
  fixes w :: world and tr :: "event list" and jobId fileId :: string
  defines "s \<equiv> fetch w tr (get (APPS_SCRIPT_URL @ ''?action=get_status&job_id='' @ jobId) [])"
    and "q \<equiv> fetch w tr (get (APPS_SCRIPT_URL @ ''?action=get_results&job_id='' @ jobId) [])"
    and "d \<equiv> fetch w tr (get (APPS_SCRIPT_URL @ ''?action=get_download_url&job_id='' @ jobId @
                  ''&file_id='' @ fileId) [(''Content-Type'', ''application/json'')])"
  shows
    "(\<forall>m. query_failure w ''Failed to get status'' s = Some m \<longrightarrow>
        snd (getJobStatus w jobId tr) = Inl (Error (''Could not retrieve job status: '' @ m))) \<and>
     (query_failure w ''Failed to get status'' s = None \<longrightarrow>
        (\<exists>data. parsed s = Some data \<and> snd (getJobStatus w jobId tr) = Inr data)) \<and>
     (\<forall>m. query_failure w ''Failed to get results'' q = Some m \<longrightarrow>
        snd (getJobResults w jobId tr) = Inl (Error (''Could not retrieve results: '' @ m))) \<and>
     (query_failure w ''Failed to get results'' q = None \<longrightarrow>
        (\<exists>data. parsed q = Some data \<and> snd (getJobResults w jobId tr) = Inr data)) \<and>
     (\<forall>m. query_failure w ''Failed to get download URL'' d = Some m \<longrightarrow>
        snd (getDownloadUrl w jobId fileId tr) =
          Inl (Error (''Could not get download URL: '' @ m))) \<and>
     (query_failure w ''Failed to get download URL'' d = None \<longrightarrow>
        (\<exists>data. parsed d = Some data \<and>
           snd (getDownloadUrl w jobId fileId tr) = Inr (field data ''url'')))"
proof -
  have s1: "\<forall>m. query_failure w ''Failed to get status'' s = Some m \<longrightarrow>
        snd (getJobStatus w jobId tr) = Inl (Error (''Could not retrieve job status: '' @ m))"
    unfolding s_def by (intro allI impI, erule wrap_fails, rule getJobStatus_result)
  have s2: "query_failure w ''Failed to get status'' s = None \<longrightarrow>
        (\<exists>data. parsed s = Some data \<and> snd (getJobStatus w jobId tr) = Inr data)"
    unfolding s_def using wrap_succeeds [OF _ getJobStatus_result] by blast
  have q1: "\<forall>m. query_failure w ''Failed to get results'' q = Some m \<longrightarrow>
        snd (getJobResults w jobId tr) = Inl (Error (''Could not retrieve results: '' @ m))"
    unfolding q_def by (intro allI impI, erule wrap_fails, rule getJobResults_result)
  have q2: "query_failure w ''Failed to get results'' q = None \<longrightarrow>
        (\<exists>data. parsed q = Some data \<and> snd (getJobResults w jobId tr) = Inr data)"
    unfolding q_def using wrap_succeeds [OF _ getJobResults_result] by blast
  have d1: "\<forall>m. query_failure w ''Failed to get download URL'' d = Some m \<longrightarrow>
        snd (getDownloadUrl w jobId fileId tr) =
          Inl (Error (''Could not get download URL: '' @ m))"
    unfolding d_def by (intro allI impI, erule wrap_fails, rule getDownloadUrl_result)
  have d2: "query_failure w ''Failed to get download URL'' d = None \<longrightarrow>
        (\<exists>data. parsed d = Some data \<and>
           snd (getDownloadUrl w jobId fileId tr) = Inr (field data ''url''))"
    unfolding d_def
  proof
    assume "query_failure w ''Failed to get download URL''
      (fetch w tr (get (APPS_SCRIPT_URL @ ''?action=get_download_url&job_id='' @ jobId @
                  ''&file_id='' @ fileId) [(''Content-Type'', ''application/json'')])) = None"
    from wrap_succeeds [OF this getDownloadUrl_result] obtain data where
      "parsed (fetch w tr (get (APPS_SCRIPT_URL @ ''?action=get_download_url&job_id='' @ jobId @
                  ''&file_id='' @ fileId) [(''Content-Type'', ''application/json'')])) = Some data"
      "data \<noteq> JNull"
      "snd (getDownloadUrl w jobId fileId tr) =
         (case get_prop w data ''url'' of
            Inl e \<Rightarrow> Inl (Error (''Could not get download URL: '' @ message e))
          | Inr v \<Rightarrow> Inr v)" by blast
    then show "\<exists>data. parsed (fetch w tr (get (APPS_SCRIPT_URL @ ''?action=get_download_url&job_id='' @ jobId @
                  ''&file_id='' @ fileId) [(''Content-Type'', ''application/json'')])) = Some data \<and>
           snd (getDownloadUrl w jobId fileId tr) = Inr (field data ''url'')"
      by (intro exI [of _ data]) (simp add: get_prop_field)
  qed
  from s1 s2 q1 q2 d1 d2 show ?thesis by blast
qed

theorem queries_reject_on_failure_witness:
  "snd (getJobStatus (w_answer (JObj [(''error'', JStr ''Job not found'')])) ''job_1'' []) =
     Inl (Error ''Could not retrieve job status: Job not found'') \<and>
   snd (getJobResults (w_answer (JObj [(''files'', JArr [])])) ''job_1'' []) =
     Inr (JObj [(''files'', JArr [])]) \<and>
   snd (getDownloadUrl (w_answer (JObj [(''url'', JStr ''https://drive/f1'')])) ''job_1'' ''f1'' []) =
     Inr (Some (JStr ''https://drive/f1''))"
  using queries_reject_on_failure
      [of "w_answer (JObj [(''error'', JStr ''Job not found'')])" "[]" "''job_1''" "''f1''"]
    queries_reject_on_failure [of "w_answer (JObj [(''files'', JArr [])])" "[]" "''job_1''" "''f1''"]
    queries_reject_on_failure
      [of "w_answer (JObj [(''url'', JStr ''https://drive/f1'')])" "[]" "''job_1''" "''f1''"]
  by (simp add: query_failure_def parsed_def truthy_def error_of_def field_def)


text \<open>
  C6 as stated fails: a parsed response that contains a field \<open>error\<close> whose
  value is the empty string is returned, not rejected.
\<close>

theorem falsy_error_field_is_accepted:
  "spec_rejects (fetch (w_answer (JObj [(''error'', JStr [])])) []
      (get (APPS_SCRIPT_URL @ ''?action=get_status&job_id='' @ ''job_1'') [])) \<and>
   snd (getJobStatus (w_answer (JObj [(''error'', JStr [])])) ''job_1'' []) =
     Inr (JObj [(''error'', JStr [])])"
  by (simp add: spec_rejects_def getJobStatus_def query_body_def get_prop_def truthy_def)

subsection \<open>C7: failures abort the upload\<close>

text \<open>
  C7. If any call of a run of \<open>uploadFiles\<close> fails, a fetch for the manifest, for
  a chunk or for the finalization that rejects, or a read of a file that fires
  \<open>onerror\<close>, then the failed call is the last call of the run: no call before
  it failed, and after it there is only the report on the console, so nothing is
  retried and nothing is cleaned up. The run throws one error, whose message is
  \<open>Upload failed: \<close> followed by the message of the failure (for a read,
  \<open>Failed to read file\<close>).
\<close>

theorem failure_aborts_the_upload:
  assumes "uploadFiles w files email tr = (tr', r)"
    and "\<exists>e \<in> set (drop (length tr) tr'). failed e"
  shows "\<exists>pre call.
           tr' = tr @ pre @ [call, Console ''Upload error:'' (Error (failure_message call))] \<and>
           failed call \<and> (\<forall>e \<in> set pre. \<not> failed e) \<and>
           r = Inl (Error (''Upload failed: '' @ failure_message call))"
proof -
  from uploadFiles_course [OF assms(1)] obtain evs where
    t: "tr' = tr @ evs"
    and c: "(\<forall>e \<in> set evs. \<not> failed e) \<and> r = Inr (snd (generateJobId w tr)) \<and>
              outline evs = upload_steps w (snd (generateJobId w tr)) files \<or>
            (\<exists>pre call. evs = pre @ [call, Console ''Upload error:'' (Error (failure_message call))] \<and>
               failed call \<and> (\<forall>e \<in> set pre. \<not> failed e) \<and>
               r = Inl (Error (''Upload failed: '' @ failure_message call)))"
    by blast
  from assms(2) t have "\<exists>e \<in> set evs. failed e" by simp
  with c t show ?thesis by blast
qed

theorem failure_aborts_the_upload_witness:
  "\<exists>pre call.
     fst (uploadFiles w_drop [f_big] ''user@example.org'' []) =
       [] @ pre @ [call, Console ''Upload error:'' (Error (failure_message call))] \<and>
     failed call \<and> (\<forall>e \<in> set pre. \<not> failed e) \<and>
     snd (uploadFiles w_drop [f_big] ''user@example.org'' []) =
       Inl (Error (''Upload failed: '' @ failure_message call)) \<and>
     failure_message call = ''Failed to fetch''"
proof -
  let ?run = "uploadFiles w_drop [f_big] ''user@example.org'' []"
  have p: "?run = (fst ?run, snd ?run)" by simp
  have "\<exists>e \<in> set (drop (length []) (fst ?run)). failed e"
    using uploadFiles_course [OF p] by (auto simp: drop_single_big)
  from failure_aborts_the_upload [OF p this] show ?thesis
    by (auto simp: drop_single_big)
qed

subsection \<open>C8: the POST operations trust the transport\<close>

text \<open>
  C8. Each POST operation, \<open>createJobManifest\<close>, \<open>uploadFileChunk\<close> and
  \<open>markJobReady\<close>, returns normally whenever none of its calls failed, that
  is, whenever its fetch returned; the response is not looked at, whatever it is.
  So does a whole run of \<open>uploadFiles\<close>: when no fetch rejects (and no file
  read fails), it returns the job identifier.
\<close>

theorem posts_trust_the_transport:
  "(createJobManifest w jobId email names tr = (tr1, r1) \<and>
      (\<forall>e \<in> set (drop (length tr) tr1). \<not> failed e) \<longrightarrow> r1 = Inr True) \<and>
   (uploadFileChunk w jobId b n i t tr = (tr2, r2) \<and>
      (\<forall>e \<in> set (drop (length tr) tr2). \<not> failed e) \<longrightarrow> r2 = Inr ()) \<and>
   (markJobReady w jobId tr = (tr3, r3) \<and>
      (\<forall>e \<in> set (drop (length tr) tr3). \<not> failed e) \<longrightarrow> r3 = Inr ()) \<and>
   (uploadFiles w files email tr = (tr4, r4) \<and>
      (\<forall>e \<in> set (drop (length tr) tr4). \<not> failed e) \<longrightarrow>
      r4 = Inr (snd (generateJobId w tr)))"
proof -
  have a: "r1 = Inr True"
    if "createJobManifest w jobId email names tr = (tr1, r1)"
      and "\<forall>e \<in> set (drop (length tr) tr1). \<not> failed e"
  proof -
    from createJobManifest_run [OF that(1)] obtain evs where
      "tr1 = tr @ evs" "run_ok [Sent (Created jobId names)] evs r1" by blast
    with that(2) run_ok_no_failure [of _ evs r1] obtain v where "r1 = Inr v" by auto
    with that(1) createJobManifest_value show ?thesis by blast
  qed
  have b: "r2 = Inr ()"
    if "uploadFileChunk w jobId b n i t tr = (tr2, r2)"
      and "\<forall>e \<in> set (drop (length tr) tr2). \<not> failed e"
  proof -
    from uploadFileChunk_run [OF that(1)] obtain evs where
      "tr2 = tr @ evs" "run_ok [Sent (Uploaded jobId n i t)] evs r2" by blast
    with that(2) run_ok_no_failure [of _ evs r2] show ?thesis by auto
  qed
  have c: "r3 = Inr ()"
    if "markJobReady w jobId tr = (tr3, r3)"
      and "\<forall>e \<in> set (drop (length tr) tr3). \<not> failed e"
  proof -
    from markJobReady_run [OF that(1)] obtain evs where
      "tr3 = tr @ evs" "run_ok [Sent (Ready jobId)] evs r3" by blast
    with that(2) run_ok_no_failure [of _ evs r3] show ?thesis by auto
  qed
  have d: "r4 = Inr (snd (generateJobId w tr))"
    if "uploadFiles w files email tr = (tr4, r4)"
      and "\<forall>e \<in> set (drop (length tr) tr4). \<not> failed e"
  proof -
    from uploadFiles_course [OF that(1)] obtain evs where
      t: "tr4 = tr @ evs"
      and c: "(\<forall>e \<in> set evs. \<not> failed e) \<and> r4 = Inr (snd (generateJobId w tr)) \<and>
                outline evs = upload_steps w (snd (generateJobId w tr)) files \<or>
              (\<exists>pre call. evs = pre @ [call, Console ''Upload error:'' (Error (failure_message call))] \<and>
                 failed call \<and> (\<forall>e \<in> set pre. \<not> failed e) \<and>
                 r4 = Inl (Error (''Upload failed: '' @ failure_message call)))"
      by blast
    from that(2) t have "\<forall>e \<in> set evs. \<not> failed e" by simp
    with c show ?thesis by auto
  qed
  from a b c d show ?thesis by blast
qed

theorem posts_trust_the_transport_witness:
  "ok opaque = False \<and>
   createJobManifest w_ok ''job_20240309_140507'' ''user@example.org'' [''a_R1.fq.gz''] [] =
     ([Clock t0, Clock t0,
       Fetch (post (Create_job \<lparr>m_job_id = ''job_20240309_140507'',
                m_user_email = ''user@example.org'', m_timestamp = toISOString t0,
                m_files = [''a_R1.fq.gz''], m_status = ''pending'',
                m_created_at = toISOString t0\<rparr>)) (Inr opaque)], Inr True) \<and>
   uploadFileChunk w_ok ''job_20240309_140507'' (whole f_small) ''a_R1.fq.gz'' 0 1 [] =
     ([Read (whole f_small) (Some ''data:application/gzip;base64,H4sIAAAA''),
       Fetch (post (Upload_file ''job_20240309_140507'' ''a_R1.fq.gz'' (Some ''H4sIAAAA'') 0 1))
         (Inr opaque)], Inr ()) \<and>
   markJobReady w_ok ''job_20240309_140507'' [] =
     ([Fetch (post (Mark_ready ''job_20240309_140507'')) (Inr opaque)], Inr ()) \<and>
   snd (uploadFiles w_ok [f_small, f_big] ''user@example.org'' []) = Inr ''job_20240309_140507''"
proof -
  let ?c = "createJobManifest w_ok ''job_20240309_140507'' ''user@example.org'' [''a_R1.fq.gz''] []"
  let ?u = "uploadFileChunk w_ok ''job_20240309_140507'' (whole f_small) ''a_R1.fq.gz'' 0 1 []"
  let ?m = "markJobReady w_ok ''job_20240309_140507'' []"
  let ?f = "uploadFiles w_ok [f_small, f_big] ''user@example.org'' []"
  have c: "fst ?c = [Clock t0, Clock t0,
       Fetch (post (Create_job \<lparr>m_job_id = ''job_20240309_140507'',
                m_user_email = ''user@example.org'', m_timestamp = toISOString t0,
                m_files = [''a_R1.fq.gz''], m_status = ''pending'',
                m_created_at = toISOString t0\<rparr>)) (Inr opaque)]"
    by (simp add: createJobManifest_def Let_def)
  have u: "fst ?u = [Read (whole f_small) (Some ''data:application/gzip;base64,H4sIAAAA''),
       Fetch (post (Upload_file ''job_20240309_140507'' ''a_R1.fq.gz'' (Some ''H4sIAAAA'') 0 1))
         (Inr opaque)]"
    by (simp add: uploadFileChunk_def Let_def index_def)
  have m: "fst ?m = [Fetch (post (Mark_ready ''job_20240309_140507'')) (Inr opaque)]"
    by (simp add: markJobReady_def Let_def)
  note th = posts_trust_the_transport [of w_ok "''job_20240309_140507''" "''user@example.org''"
      "[''a_R1.fq.gz'']" "[]" "fst ?c" "snd ?c" "whole f_small" "''a_R1.fq.gz''" 0 1
      "fst ?u" "snd ?u" "fst ?m" "snd ?m" "[f_small, f_big]" "fst ?f" "snd ?f"]
  have 1: "snd ?c = Inr True"
  proof (rule th [THEN conjunct1, rule_format], intro conjI)
    show "?c = (fst ?c, snd ?c)" by simp
    show "\<forall>e \<in> set (drop (length []) (fst ?c)). \<not> failed e" using c by simp
  qed
  have 2: "snd ?u = Inr ()"
  proof (rule th [THEN conjunct2, THEN conjunct1, rule_format], intro conjI)
    show "?u = (fst ?u, snd ?u)" by simp
    show "\<forall>e \<in> set (drop (length []) (fst ?u)). \<not> failed e" using u by simp
  qed
  have 3: "snd ?m = Inr ()"
  proof (rule th [THEN conjunct2, THEN conjunct2, THEN conjunct1, rule_format], intro conjI)
    show "?m = (fst ?m, snd ?m)" by simp
    show "\<forall>e \<in> set (drop (length []) (fst ?m)). \<not> failed e" using m by simp
  qed
  have 4: "snd ?f = Inr (snd (generateJobId w_ok []))"
  proof (rule th [THEN conjunct2, THEN conjunct2, THEN conjunct2, rule_format], intro conjI)
    show "?f = (fst ?f, snd ?f)" by simp
    show "\<forall>e \<in> set (drop (length []) (fst ?f)). \<not> failed e"
      using ok_run_clean [of "[]" "[f_small, f_big]" "''user@example.org''"] by simp
  qed
  from c u m 1 2 3 4 show ?thesis by (simp add: prod_eq_iff job_id_ok opaque_def)
qed

subsection \<open>C9: the job identifier\<close>

text \<open>
  C9. At a clock time whose year has four digits, the job identifier is \<open>job_\<close>
  followed by the fifteen characters \<open>YYYYMMDD_HHMMSS\<close> of that time, and two
  identifiers generated within the same calendar minute at different seconds are
  distinct.
\<close>

theorem job_id_second_precision:
  assumes "clock w tr = t" and "clock w' tr' = t'"
    and "0 \<le> year t" and "year t \<le> 9999"
    and "year t' = year t" and "month t' = month t" and "day t' = day t"
    and "hour t' = hour t" and "minute t' = minute t"
    and "second t < 60" and "second t' < 60" and "second t \<noteq> second t'"
  shows "snd (generateJobId w tr) =
           ''job_'' @ pad 4 (nat (year t)) @ pad 2 (month t) @ pad 2 (day t) @ ''_'' @
           pad 2 (hour t) @ pad 2 (minute t) @ pad 2 (second t) \<and>
         length (snd (generateJobId w tr)) = 4 + 15 \<and>
         snd (generateJobId w tr) \<noteq> snd (generateJobId w' tr')"
proof -
  have a: "snd (generateJobId w tr) =
           ''job_'' @ pad 4 (nat (year t)) @ pad 2 (month t) @ pad 2 (day t) @ ''_'' @
           pad 2 (hour t) @ pad 2 (minute t) @ pad 2 (second t)"
    using assms(1,3,4) by (simp add: generateJobId_def Let_def compact_stamp_iso)
  have b: "snd (generateJobId w' tr') =
           ''job_'' @ pad 4 (nat (year t)) @ pad 2 (month t) @ pad 2 (day t) @ ''_'' @
           pad 2 (hour t) @ pad 2 (minute t) @ pad 2 (second t')"
    using assms(2-9) by (simp add: generateJobId_def Let_def compact_stamp_iso)
  have "second t < 100" "second t' < 100" using assms(10,11) by simp_all
  with assms(12) have "pad 2 (second t) \<noteq> pad 2 (second t')"
    using pad2_inj [of "second t" "second t'"] by blast
  with a b show ?thesis by simp
qed

theorem job_id_second_precision_witness:
  "snd (generateJobId w_ok []) = ''job_20240309_140507'' \<and>
   snd (generateJobId w_later []) = ''job_20240309_140508'' \<and>
   length (snd (generateJobId w_ok [])) = 4 + 15 \<and>
   snd (generateJobId w_ok []) \<noteq> snd (generateJobId w_later [])"
proof -
  have c: "clock w_ok [] = t0" "clock w_later [] = t1"
    by (simp_all add: w_ok_def w_later_def)
  have "length (snd (generateJobId w_ok [])) = 4 + 15 \<and>
     snd (generateJobId w_ok []) \<noteq> snd (generateJobId w_later [])"
    by (rule job_id_second_precision [OF c, THEN conjunct2]) (simp_all add: t0_def t1_def)
  then show ?thesis by (simp add: job_id_ok job_id_later)
qed

subsection \<open>C10: an empty list of files\<close>

text \<open>
  C10. A run of \<open>uploadFiles\<close> on an empty list of files in which no call fails
  returns the generated job identifier; it sends one \<open>create_job\<close> request and
  one \<open>mark_ready\<close> request and no \<open>upload_file\<close> request, and reports the
  progress 0, 10, 95, 100, in this order.
\<close>

theorem empty_upload:
  assumes "uploadFiles w [] email tr = (tr', r)"
    and "\<forall>e \<in> set (drop (length tr) tr'). \<not> failed e"
  shows "r = Inr (snd (generateJobId w tr)) \<and>
         outline (drop (length tr) tr') =
           [Said 0 ''Creating job...'' None, Sent (Created (snd (generateJobId w tr)) []),
            Said 10 ''Uploading files...'' None, Said 95 ''Finalizing upload...'' None,
            Sent (Ready (snd (generateJobId w tr))), Said 100 ''Upload complete!'' None]"
proof -
  from uploadFiles_course [OF assms(1)] obtain evs where
    t: "tr' = tr @ evs"
    and c: "(\<forall>e \<in> set evs. \<not> failed e) \<and> r = Inr (snd (generateJobId w tr)) \<and>
              outline evs = upload_steps w (snd (generateJobId w tr)) [] \<or>
            (\<exists>pre call. evs = pre @ [call, Console ''Upload error:'' (Error (failure_message call))] \<and>
               failed call \<and> (\<forall>e \<in> set pre. \<not> failed e) \<and>
               r = Inl (Error (''Upload failed: '' @ failure_message call)))"
    by blast
  from assms(2) t have "\<forall>e \<in> set evs. \<not> failed e" by simp
  with c have "r = Inr (snd (generateJobId w tr))"
    "outline evs = upload_steps w (snd (generateJobId w tr)) []" by auto
  with t show ?thesis
    by (simp add: upload_steps_def body_steps_def files_steps_def)
qed

theorem empty_upload_witness:
  "snd (uploadFiles w_ok [] ''user@example.org'' []) = Inr ''job_20240309_140507'' \<and>
   outline (fst (uploadFiles w_ok [] ''user@example.org'' [])) =
     [Said 0 ''Creating job...'' None, Sent (Created ''job_20240309_140507'' []),
      Said 10 ''Uploading files...'' None, Said 95 ''Finalizing upload...'' None,
      Sent (Ready ''job_20240309_140507''), Said 100 ''Upload complete!'' None]"
  using empty_upload [OF ok_run_pair [of "[]" "''user@example.org''" "[]"]]
    ok_run_clean [of "[]" "[]" "''user@example.org''"]
  by (simp add: job_id_ok ok_run)

end
